theory Spec2Isabelle
  imports Complex_Main
begin

section \<open>Python values, errors and string built-ins\<close>

text \<open>
  The module \<open>cairosvg/surface.py\<close> is embedded function by function. Python strings are
  \<open>string\<close> (ASCII), Python's \<open>int\<close> and \<open>float\<close> values are identified and idealised as
  \<open>real\<close> (no rounding, no overflow), \<open>None\<close> is the \<open>None\<close> of an option type, and every
  exception is a value of \<open>error\<close>. Division \<open>/\<close> is Python 3's true division.
\<close>

datatype error =
    ValueError
  | TypeError
  | AttributeError
  | UnboundLocalError
  | NotImplementedError
  | ZeroDivisionError
  | NonFiniteFloat
    \<comment> \<open>not a Python exception: \<open>float()\<close> returned \<open>inf\<close> or \<open>nan\<close>, which the idealised
        numbers do not have; evaluation of the model stops there\<close>

fun bindE :: "error + 'a \<Rightarrow> ('a \<Rightarrow> error + 'b) \<Rightarrow> error + 'b" where
  "bindE (Inl e) f = Inl e"
| "bindE (Inr a) f = f a"

text \<open>\<open>p in s\<close> for strings: \<open>startswith s p\<close> and \<open>contains p s\<close>.\<close>

fun startswith :: "string \<Rightarrow> string \<Rightarrow> bool" where
  "startswith s [] = True"
| "startswith [] (p # ps) = False"
| "startswith (c # cs) (p # ps) = (c = p \<and> startswith cs ps)"

fun contains :: "string \<Rightarrow> string \<Rightarrow> bool" where
  "contains sub [] = (sub = [])"
| "contains sub (c # cs) = (startswith (c # cs) sub \<or> contains sub cs)"

text \<open>\<open>s.replace(old, new)\<close>: all non-overlapping occurrences, leftmost first.\<close>

function py_replace :: "string \<Rightarrow> string \<Rightarrow> string \<Rightarrow> string" where
  "py_replace old new [] = (if old = [] then new else [])"
| "py_replace old new (c # cs) =
     (if old = [] then new @ c # py_replace old new cs
      else if startswith (c # cs) old then new @ py_replace old new (drop (length old) (c # cs))
      else c # py_replace old new cs)"
  by pat_completeness auto
termination
  by (relation "measure (\<lambda>(old, new, s). length s)") auto

text \<open>\<open>s.replace(old, new, 1)\<close>: the first occurrence only.\<close>

fun py_replace1 :: "string \<Rightarrow> string \<Rightarrow> string \<Rightarrow> string" where
  "py_replace1 old new [] = (if old = [] then new else [])"
| "py_replace1 old new (c # cs) =
     (if startswith (c # cs) old then new @ drop (length old) (c # cs)
      else c # py_replace1 old new cs)"

text \<open>\<open>s.split(sep, maxsplit)\<close> and \<open>s.split(sep)\<close> for a one-character separator.\<close>

fun py_split_max :: "char \<Rightarrow> nat \<Rightarrow> string \<Rightarrow> string list" where
  "py_split_max sep 0 s = [s]"
| "py_split_max sep (Suc k) s =
     (if sep \<in> set s
      then takeWhile (\<lambda>c. c \<noteq> sep) s # py_split_max sep k (tl (dropWhile (\<lambda>c. c \<noteq> sep) s))
      else [s])"

fun py_split :: "char \<Rightarrow> string \<Rightarrow> string list" where
  "py_split sep [] = [[]]"
| "py_split sep (c # cs) =
     (if c = sep then [] # py_split sep cs
      else (case py_split sep cs of [] \<Rightarrow> [[c]] | x # xs \<Rightarrow> (c # x) # xs))"

definition isspace :: "char \<Rightarrow> bool" where
  "isspace c = (c \<in> set [CHR 0x09, CHR 0x0A, CHR 0x0B, CHR 0x0C, CHR 0x0D,
                           CHR 0x1C, CHR 0x1D, CHR 0x1E, CHR 0x1F, CHR '' ''])"

text \<open>\<open>s.split()\<close>: split on runs of whitespace, no empty words.\<close>

fun py_split_ws_from :: "string \<Rightarrow> string \<Rightarrow> string list" where
  "py_split_ws_from cur [] = (if cur = [] then [] else [cur])"
| "py_split_ws_from cur (c # cs) =
     (if isspace c then (if cur = [] then [] else [cur]) @ py_split_ws_from [] cs
      else py_split_ws_from (cur @ [c]) cs)"

definition py_split_ws :: "string \<Rightarrow> string list" where
  "py_split_ws s = py_split_ws_from [] s"

definition py_strip :: "string \<Rightarrow> string" where
  "py_strip s = rev (dropWhile isspace (rev (dropWhile isspace s)))"

definition py_lstrip_chars :: "string \<Rightarrow> string \<Rightarrow> string" where
  "py_lstrip_chars chars s = dropWhile (\<lambda>c. c \<in> set chars) s"

definition py_strip_chars :: "string \<Rightarrow> string \<Rightarrow> string" where
  "py_strip_chars chars s =
     rev (dropWhile (\<lambda>c. c \<in> set chars) (rev (dropWhile (\<lambda>c. c \<in> set chars) s)))"

definition py_slice :: "nat \<Rightarrow> nat \<Rightarrow> string \<Rightarrow> string" where
  "py_slice i j s = take (j - i) (drop i s)"

definition is_digit :: "char \<Rightarrow> bool" where
  "is_digit c = (c \<in> set ''0123456789'')"

definition py_isdigit :: "string \<Rightarrow> bool" where
  "py_isdigit s = (s \<noteq> [] \<and> list_all is_digit s)"

definition py_lower_char :: "char \<Rightarrow> char" where
  "py_lower_char c =
     (case map_of (zip ''ABCDEFGHIJKLMNOPQRSTUVWXYZ'' ''abcdefghijklmnopqrstuvwxyz'') c of
        Some l \<Rightarrow> l
      | None \<Rightarrow> c)"

definition py_upper_char :: "char \<Rightarrow> char" where
  "py_upper_char c =
     (case map_of (zip ''abcdefghijklmnopqrstuvwxyz'' ''ABCDEFGHIJKLMNOPQRSTUVWXYZ'') c of
        Some u \<Rightarrow> u
      | None \<Rightarrow> c)"

definition py_lower :: "string \<Rightarrow> string" where
  "py_lower s = map py_lower_char s"

definition py_upper :: "string \<Rightarrow> string" where
  "py_upper s = map py_upper_char s"

subsection \<open>\<open>float(s)\<close> and \<open>int(s, 16)\<close>\<close>

text \<open>
  The number parsers skip the C locale's whitespace only: unlike \<open>str.strip\<close>, they do not
  take the separators \<open>0x1C\<close> to \<open>0x1F\<close> for whitespace.
\<close>

definition is_cspace :: "char \<Rightarrow> bool" where
  "is_cspace c = (c \<in> set [CHR 0x09, CHR 0x0A, CHR 0x0B, CHR 0x0C, CHR 0x0D, CHR '' ''])"

definition strip_cspace :: "string \<Rightarrow> string" where
  "strip_cspace s = rev (dropWhile is_cspace (rev (dropWhile is_cspace s)))"

definition digit_of :: "char \<Rightarrow> nat" where
  "digit_of c = of_char c - 48"

definition nat_of_digits :: "string \<Rightarrow> nat" where
  "nat_of_digits ds = foldl (\<lambda>a c. 10 * a + digit_of c) 0 ds"

text \<open>An underscore is allowed between two digits only, and is dropped.\<close>

fun drop_underscores :: "bool \<Rightarrow> string \<Rightarrow> string option" where
  "drop_underscores prev [] = Some []"
| "drop_underscores prev (c # cs) =
     (if c = CHR ''_''
      then (case cs of
              [] \<Rightarrow> None
            | d # ds \<Rightarrow> if prev \<and> is_digit d then drop_underscores False cs else None)
      else map_option ((#) c) (drop_underscores (is_digit c) cs))"

definition take_sign :: "string \<Rightarrow> real \<times> string" where
  "take_sign s =
     (case s of
        [] \<Rightarrow> (1, [])
      | c # cs \<Rightarrow> if c = CHR ''-'' then (-1, cs) else if c = CHR ''+'' then (1, cs) else (1, s))"

definition float_exponent :: "string \<Rightarrow> (bool \<times> nat) option" where
  \<comment> \<open>the exponent part: empty, or \<open>e\<close>/\<open>E\<close>, an optional sign and at least one digit;
      the result is (negative, magnitude)\<close>
  "float_exponent s =
     (case s of
        [] \<Rightarrow> Some (False, 0)
      | c # cs \<Rightarrow>
          if c = CHR ''e'' \<or> c = CHR ''E'' then
            (let neg = (cs \<noteq> [] \<and> hd cs = CHR ''-'');
                 ds = (if cs \<noteq> [] \<and> (hd cs = CHR ''-'' \<or> hd cs = CHR ''+'') then tl cs else cs)
             in if py_isdigit ds then Some (neg, nat_of_digits ds) else None)
          else None)"

definition float_literal :: "string \<Rightarrow> real option" where
  \<comment> \<open>an unsigned decimal literal: digits, an optional point and digits, an optional exponent\<close>
  "float_literal s =
     (let ip = takeWhile is_digit s;
          r1 = dropWhile is_digit s;
          fp = (if r1 \<noteq> [] \<and> hd r1 = CHR ''.'' then takeWhile is_digit (tl r1) else []);
          r2 = (if r1 \<noteq> [] \<and> hd r1 = CHR ''.'' then dropWhile is_digit (tl r1) else r1)
      in if ip @ fp = [] then None
         else (case float_exponent r2 of
                 None \<Rightarrow> None
               | Some (neg, ex) \<Rightarrow>
                   Some (if neg
                         then real (nat_of_digits (ip @ fp)) / 10 ^ length fp / 10 ^ ex
                         else real (nat_of_digits (ip @ fp)) / 10 ^ length fp * 10 ^ ex)))"

definition py_float :: "string \<Rightarrow> error + real" where
  "py_float s =
     (let (sgn, body) = take_sign (strip_cspace s)
      in if py_lower body \<in> set [''inf'', ''infinity'', ''nan''] then Inl NonFiniteFloat
         else (case drop_underscores False body of
                 None \<Rightarrow> Inl ValueError
               | Some b \<Rightarrow>
                   (case float_literal b of
                      None \<Rightarrow> Inl ValueError
                    | Some v \<Rightarrow> Inr (sgn * v))))"

definition is_hex :: "char \<Rightarrow> bool" where
  "is_hex c = (c \<in> set ''0123456789abcdefABCDEF'')"

definition hex_of :: "char \<Rightarrow> nat" where
  "hex_of c =
     (if is_digit c then of_char c - 48
      else if (97::nat) \<le> of_char c then of_char c - 87
      else of_char c - 55)"

definition py_int16 :: "string \<Rightarrow> error + real" where
  \<comment> \<open>\<open>int(s, 16)\<close>: surrounding whitespace, an optional sign, an optional \<open>0x\<close> prefix and
      hexadecimal digits. Underscores between digits are left out: the resolver passes
      slices of at most two characters, where none is valid.\<close>
  "py_int16 s =
     (let (sgn, body) = take_sign (strip_cspace s);
          ds = (if startswith (py_lower body) ''0x'' then drop 2 body else body)
      in if ds \<noteq> [] \<and> list_all is_hex ds
         then Inr (sgn * real (foldl (\<lambda>a c. 16 * a + hex_of c) 0 ds))
         else Inl ValueError)"

section \<open>Value resolvers\<close>

text \<open>\<open>UNITS\<close>, in the dictionary's insertion order; \<open>None\<close> is \<open>NotImplemented\<close>.\<close>

definition DPI :: real where
  "DPI = 72"

definition UNITS :: "(string \<times> real option) list" where
  "UNITS =
     [(''mm'', Some (DPI / (254 / 10))),
      (''cm'', Some (DPI / (254 / 100))),
      (''in'', Some DPI),
      (''pt'', Some (DPI / 72)),
      (''pc'', Some (DPI / 6)),
      (''px'', Some 1),
      (''em'', None),
      (''ex'', None),
      (''%'', None)]"

definition math_pi :: real where
  \<comment> \<open>\<open>math.pi\<close>: the double nearest to \<open>\<pi>\<close>, exactly\<close>
  "math_pi = 884279719003555 / 281474976710656"

definition ASCII_LETTERS :: string where
  "ASCII_LETTERS = ''abcdefghijklmnopqrstuvwxyzABCDEFGHIJKLMNOPQRSTUVWXYZ''"

text \<open>The loop \<open>while "  " in string: string = string.replace("  ", " ")\<close>.\<close>

lemma startswith_length: "startswith s p \<Longrightarrow> length p \<le> length s"
  by (induction s p rule: startswith.induct) auto

lemma py_replace_le:
  "old \<noteq> [] \<Longrightarrow> length new \<le> length old \<Longrightarrow> length (py_replace old new s) \<le> length s"
proof (induction old new s rule: py_replace.induct)
  case (1 old new)
  then show ?case by simp
next
  case (2 old new c cs)
  show ?case
  proof (cases "startswith (c # cs) old")
    case True
    from startswith_length[OF True] have "length old \<le> Suc (length cs)" by simp
    with 2 True show ?thesis by auto
  next
    case False
    with 2 show ?thesis by auto
  qed
qed

lemma py_replace_shorter:
  "old \<noteq> [] \<Longrightarrow> length new < length old \<Longrightarrow> contains old s \<Longrightarrow>
   length (py_replace old new s) < length s"
proof (induction old new s rule: py_replace.induct)
  case (1 old new)
  then show ?case by simp
next
  case (2 old new c cs)
  show ?case
  proof (cases "startswith (c # cs) old")
    case True
    from startswith_length[OF True] have l: "length old \<le> Suc (length cs)" by simp
    have "length (py_replace old new (drop (length old) (c # cs)))
            \<le> length (drop (length old) (c # cs))"
      using "2.prems" by (intro py_replace_le) auto
    with "2.prems" True l show ?thesis by auto
  next
    case False
    with 2 show ?thesis by auto
  qed
qed

function collapse_spaces :: "string \<Rightarrow> string" where
  "collapse_spaces string =
     (if contains ''  '' string then collapse_spaces (py_replace ''  '' '' '' string)
      else string)"
  by pat_completeness auto
termination
  by (relation "measure length") (auto intro: py_replace_shorter)

declare collapse_spaces.simps [simp del]

definition normalize_py :: "string \<Rightarrow> string" where
  "normalize_py string =
     collapse_spaces (py_replace '','' '' '' (py_replace ''-'' '' -'' string))"

text \<open>
  \<open>size\<close>: the result is \<open>Some v\<close> for a number and \<open>None\<close> when the function falls off its
  end (no unit of the table occurs in the string).
\<close>

definition times_unit :: "error + real \<Rightarrow> real option \<Rightarrow> error + real option" where
  \<comment> \<open>\<open>float(...) * value\<close>: the float is computed first, and its \<open>ValueError\<close> wins; a
      float times \<open>NotImplemented\<close> is a \<open>TypeError\<close>, for \<open>inf\<close> and \<open>nan\<close> too\<close>
  "times_unit f value =
     (case f of
        Inl e \<Rightarrow> if e = NonFiniteFloat \<and> value = None then Inl TypeError else Inl e
      | Inr r \<Rightarrow> (case value of None \<Rightarrow> Inl TypeError | Some v \<Rightarrow> Inr (Some (r * v))))"

fun size_units :: "(string \<times> real option) list \<Rightarrow> string \<Rightarrow> error + real option" where
  "size_units [] string = Inr None"
| "size_units ((unit, value) # units) string =
     (if contains unit string
      then times_unit (py_float (py_strip_chars (CHR '' '' # unit) string)) value
      else size_units units string)"

definition size_py :: "string option \<Rightarrow> error + real option" where
  "size_py string =
     (case string of
        None \<Rightarrow> Inr (Some 0)
      | Some s \<Rightarrow>
          if s = [] then Inr (Some 0)
          else if py_isdigit (py_lstrip_chars '' -'' (py_replace1 ''.'' [] s))
          then bindE (py_float s) (\<lambda>f. Inr (Some f))
          else size_units UNITS s)"

text \<open>\<open>color\<close>; the table \<open>COLORS\<close> of the module \<open>colors\<close> is a parameter.\<close>

definition color ::
  "(string \<rightharpoonup> string) \<Rightarrow> string option \<Rightarrow> real \<Rightarrow> error + (real \<times> real \<times> real \<times> real)" where
  "color COLORS string opacity =
     (case string of
        None \<Rightarrow> Inr (0, 0, 0, 0)
      | Some s \<Rightarrow>
          if s = [] \<or> s = ''none'' then Inr (0, 0, 0, 0)
          else
            (let s1 = py_lower (py_strip s);
                 s2 = (case COLORS s1 of Some v \<Rightarrow> v | None \<Rightarrow> s1);
                 s3 = (if length s2 = 4 \<or> length s2 = 5
                       then CHR ''#'' # concat (map (\<lambda>char. [char, char]) (drop 1 s2))
                       else s2)
             in bindE (if length s3 = 9
                       then bindE (py_int16 (py_slice 7 9 s3)) (\<lambda>a. Inr (opacity * (a / 255)))
                       else Inr opacity)
                  (\<lambda>opacity'.
                bindE (py_int16 (py_slice 1 3 s3)) (\<lambda>r.
                bindE (py_int16 (py_slice 3 5 s3)) (\<lambda>g.
                bindE (py_int16 (py_slice 5 7 s3)) (\<lambda>b.
                Inr (r / 255, g / 255, b / 255, opacity')))))))"

definition point :: "string option \<Rightarrow> error + (real option \<times> real option \<times> string)" where
  "point string =
     (case string of
        None \<Rightarrow> Inr (Some 0, Some 0, [])
      | Some s \<Rightarrow>
          if s = [] then Inr (Some 0, Some 0, [])
          else
            (case py_split_max (CHR '' '') 2 s of
               [x, y, rest] \<Rightarrow>
                 bindE (size_py (Some x)) (\<lambda>x'.
                 bindE (size_py (Some y)) (\<lambda>y'.
                 Inr (x', y', rest)))
             | _ \<Rightarrow> Inl ValueError))"

section \<open>The surface and the drawing backend\<close>

text \<open>
  The cairo context is external to the module. It is modelled by the list of the calls
  made on it, oldest first; what the backend answers to a query (\<open>get_current_point\<close>,
  \<open>text_extents\<close>) is a parameter of the model, a function of the calls made so far. A call
  with a \<open>None\<close> argument raises \<open>TypeError\<close> (the binding requires floats); other failures
  of the backend are outside the model.
\<close>

datatype font_slant = FONT_SLANT_NORMAL | FONT_SLANT_ITALIC | FONT_SLANT_OBLIQUE

datatype font_weight = FONT_WEIGHT_NORMAL | FONT_WEIGHT_BOLD

datatype call =
    Save
  | Restore
  | MoveTo real real
  | RelMoveTo real real
  | LineTo real real
  | RelLineTo real real
  | CurveTo real real real real real real
  | RelCurveTo real real real real real real
  | ClosePath
  | Arc real real real real real
  | Scale real real
  | Translate real real
  | SetMatrix real real real real real real
  | SetLineWidth real
  | SetSourceRgba real real real real
  | StrokePreserve
  | SetFillRuleEvenOdd
  | Fill
  | SelectFontFace string font_slant font_weight
  | SetFontSize real
  | ShowText string
  | TextPath string

record surface =
  calls :: "call list"
  cursor_position :: "(real \<times> real) option"

datatype node =
  Node (tag: string) (attrs: "string \<rightharpoonup> string") (children: "node list")
       (node_text: "string option") (is_root: bool)

text \<open>
  The collaborators: the colour table, the parser's \<open>Tree(url, parent)\<close>, the backend's
  queries and Python's \<open>str\<close> of a float.
\<close>

record env =
  COLORS :: "string \<rightharpoonup> string"
  Tree :: "string \<Rightarrow> node \<Rightarrow> error + node"
  get_current_point :: "call list \<Rightarrow> real \<times> real"
  text_extents :: "call list \<Rightarrow> string \<Rightarrow> real \<times> real \<times> real \<times> real \<times> real \<times> real"
  float_str :: "real \<Rightarrow> string"

text \<open>
  A method either returns with the surface it leaves, or raises and leaves the surface as
  it was at the raise (the calls already made stay made), or runs out of fuel.
\<close>

datatype 'a outcome = Done 'a surface | Raised error surface | OutOfFuel

fun bindS ::
  "(surface \<Rightarrow> 'a outcome) \<Rightarrow> ('a \<Rightarrow> surface \<Rightarrow> 'b outcome) \<Rightarrow> surface \<Rightarrow> 'b outcome" where
  "bindS m f s =
     (case m s of
        Done a s' \<Rightarrow> f a s'
      | Raised e s' \<Rightarrow> Raised e s'
      | OutOfFuel \<Rightarrow> OutOfFuel)"

definition lift :: "error + 'a \<Rightarrow> surface \<Rightarrow> 'a outcome" where
  "lift r s = (case r of Inl e \<Rightarrow> Raised e s | Inr a \<Rightarrow> Done a s)"

definition emit :: "call \<Rightarrow> surface \<Rightarrow> unit outcome" where
  "emit c s = Done () (s\<lparr>calls := calls s @ [c]\<rparr>)"

definition read :: "(surface \<Rightarrow> 'x) \<Rightarrow> ('x \<Rightarrow> surface \<Rightarrow> 'a outcome) \<Rightarrow> surface \<Rightarrow> 'a outcome" where
  \<comment> \<open>a step that depends on what the surface holds\<close>
  "read h g s = g (h s) s"

definition num :: "real option \<Rightarrow> error + real" where
  \<comment> \<open>a value used where a number is required\<close>
  "num v = (case v of None \<Rightarrow> Inl TypeError | Some r \<Rightarrow> Inr r)"

definition add_num :: "real option \<Rightarrow> real option \<Rightarrow> error + real" where
  "add_num a b = bindE (num a) (\<lambda>x. bindE (num b) (\<lambda>y. Inr (x + y)))"

definition float_attr :: "string option \<Rightarrow> error + real" where
  \<comment> \<open>\<open>float(node.get(key, 1))\<close>\<close>
  "float_attr v = (case v of None \<Rightarrow> Inr 1 | Some s \<Rightarrow> py_float s)"

definition truthy :: "string option \<Rightarrow> bool" where
  "truthy v = (case v of None \<Rightarrow> False | Some s \<Rightarrow> s \<noteq> [])"

subsection \<open>The transform attribute\<close>

lemma py_split_max_rest_shorter:
  "py_split_max sep (Suc 0) t = [a, b] \<Longrightarrow> length b < length t"
proof -
  assume h: "py_split_max sep (Suc 0) t = [a, b]"
  then have m: "sep \<in> set t" and b: "b = tl (dropWhile (\<lambda>c. c \<noteq> sep) t)"
    by (auto split: if_splits)
  from m have "t \<noteq> []" by auto
  moreover have "length (dropWhile (\<lambda>c. c \<noteq> sep) t) \<le> length t"
    by (rule length_dropWhile_le)
  ultimately show ?thesis
    unfolding b by (cases t) auto
qed

function transform_values :: "string \<Rightarrow> error + real option list" where
  "transform_values transformation =
     (if transformation = [] then Inr []
      else
        (case py_split_max (CHR '' '') (Suc 0) transformation of
           [value, rest] \<Rightarrow>
             (case size_py (Some value) of
                Inl e \<Rightarrow> Inl e
              | Inr v \<Rightarrow>
                  (case transform_values rest of
                     Inl e \<Rightarrow> Inl e
                   | Inr values \<Rightarrow> Inr (v # values)))
         | _ \<Rightarrow> Inl ValueError))"
  by pat_completeness auto
termination
  by (relation "measure length") (auto intro: py_split_max_rest_shorter)

declare transform_values.simps [simp del]

definition Matrix :: "real option list \<Rightarrow> error + call" where
  \<comment> \<open>\<open>cairo.Matrix(*values)\<close>: at most six numbers, the missing ones default to the
      identity's \<open>(1, 0, 0, 1, 0, 0)\<close>\<close>
  "Matrix values =
     (if 6 < length values \<or> None \<in> set values then Inl TypeError
      else
        (let vs = map the values @ drop (length values) [1, 0, 0, 1, 0, 0]
         in Inr (SetMatrix (vs ! 0) (vs ! 1) (vs ! 2) (vs ! 3) (vs ! 4) (vs ! 5))))"

definition apply_transformation :: "string \<Rightarrow> real option list \<Rightarrow> surface \<Rightarrow> unit outcome" where
  "apply_transformation ttype values =
     (if ttype = ''matrix'' then bindS (lift (Matrix values)) emit
      else
        (let values' = (if length values = 1 then values @ values else values)
         in case values' of
              [a, b] \<Rightarrow>
                bindS (lift (num a)) (\<lambda>x.
                bindS (lift (num b)) (\<lambda>y.
                emit (if ttype = ''scale'' then Scale x y else Translate x y)))
            | _ \<Rightarrow> lift (Inl TypeError)))"

fun transformation_types :: "string list \<Rightarrow> string \<Rightarrow> surface \<Rightarrow> unit outcome" where
  "transformation_types [] transformation s = Done () s"
| "transformation_types (ttype # ttypes) transformation s =
     (if contains ttype transformation
      then
        (case transform_values
                (py_strip (normalize_py
                   (py_replace ''('' [] (py_replace ttype [] transformation))) @ '' '') of
           Inl e \<Rightarrow> Raised e s
         | Inr values \<Rightarrow>
             (case apply_transformation ttype values s of
                Done u s' \<Rightarrow> transformation_types ttypes [] s'
              | Raised e s' \<Rightarrow> Raised e s'
              | OutOfFuel \<Rightarrow> OutOfFuel))
      else transformation_types ttypes transformation s)"

fun transformations :: "string list \<Rightarrow> surface \<Rightarrow> unit outcome" where
  "transformations [] s = Done () s"
| "transformations (transformation # rest) s =
     (case transformation_types [''scale'', ''translate'', ''matrix''] transformation s of
        Done u s' \<Rightarrow> transformations rest s'
      | Raised e s' \<Rightarrow> Raised e s'
      | OutOfFuel \<Rightarrow> OutOfFuel)"

definition transform :: "node \<Rightarrow> surface \<Rightarrow> unit outcome" where
  "transform node s =
     (if truthy (attrs node ''transform'')
      then transformations (py_split (CHR '')'') (the (attrs node ''transform''))) s
      else Done () s)"

subsection \<open>The path handler\<close>

text \<open>
  The local variables of the loop of \<open>path\<close> that live across iterations. \<open>letter\<close> and
  \<open>last_letter\<close> are \<open>None\<close> while unbound (\<open>letter\<close>) or \<open>None\<close> (\<open>last_letter\<close>); the control
  points \<open>x2, y2, x3, y3\<close> are \<open>None\<close> until a curve command has bound them.
\<close>

record path_vars =
  string :: string
  letter :: "string option"
  last_letter :: "string option"
  x2 :: "real option"
  y2 :: "real option"
  x3 :: "real option"
  y3 :: "real option"

definition split_first :: "string \<Rightarrow> error + (string \<times> string)" where
  \<comment> \<open>\<open>a, string = string.split(" ", 1)\<close>\<close>
  "split_first str =
     (case py_split_max (CHR '' '') (Suc 0) str of
        [a, rest] \<Rightarrow> Inr (a, rest)
      | _ \<Rightarrow> Inl ValueError)"

definition read_letter :: "path_vars \<Rightarrow> error + path_vars" where
  \<comment> \<open>\<open>string = string.strip()\<close>, then the letter is read when the first word is one\<close>
  "read_letter v =
     (let str = py_strip (string v)
      in if contains (hd (py_split_max (CHR '' '') (Suc 0) str)) ASCII_LETTERS
         then bindE (split_first str) (\<lambda>(l, rest). Inr (v\<lparr>string := rest, letter := Some l\<rparr>))
         else Inr (v\<lparr>string := str\<rparr>))"

definition reflected :: "path_vars \<Rightarrow> string \<Rightarrow> real \<Rightarrow> real option \<Rightarrow> real option \<Rightarrow> error + real" where
  \<comment> \<open>\<open>p3 - p2 if last_letter in letters else other\<close>\<close>
  "reflected v letters other p3 p2 =
     (case last_letter v of
        None \<Rightarrow> Inl TypeError
      | Some l \<Rightarrow>
          if contains l letters
          then (case (p3, p2) of
                  (Some a, Some b) \<Rightarrow> Inr (a - b)
                | _ \<Rightarrow> Inl UnboundLocalError)
          else Inr other)"

definition curve_points ::
  "string \<Rightarrow> error + ((real option \<times> real option) \<times> (real option \<times> real option) \<times> string)" where
  \<comment> \<open>two successive calls of \<open>point\<close>\<close>
  "curve_points str =
     bindE (point (Some str)) (\<lambda>(a, b, str1).
     bindE (point (Some str1)) (\<lambda>(c, d, str2).
     Inr ((a, b), (c, d), str2)))"

definition emit2 :: "(real \<Rightarrow> real \<Rightarrow> call) \<Rightarrow> real option \<Rightarrow> real option \<Rightarrow> surface \<Rightarrow> unit outcome" where
  "emit2 f a b =
     bindS (lift (num a)) (\<lambda>x.
     bindS (lift (num b)) (\<lambda>y. emit (f x y)))"

definition emit6 ::
  "(real \<Rightarrow> real \<Rightarrow> real \<Rightarrow> real \<Rightarrow> real \<Rightarrow> real \<Rightarrow> call) \<Rightarrow>
   real option \<Rightarrow> real option \<Rightarrow> real option \<Rightarrow> real option \<Rightarrow> real option \<Rightarrow> real option \<Rightarrow>
   surface \<Rightarrow> unit outcome" where
  "emit6 f a b c d e g =
     bindS (lift (num a)) (\<lambda>a'.
     bindS (lift (num b)) (\<lambda>b'.
     bindS (lift (num c)) (\<lambda>c'.
     bindS (lift (num d)) (\<lambda>d'.
     bindS (lift (num e)) (\<lambda>e'.
     bindS (lift (num g)) (\<lambda>g'. emit (f a' b' c' d' e' g')))))))"

definition curve_command ::
  "(real \<Rightarrow> real \<Rightarrow> real \<Rightarrow> real \<Rightarrow> real \<Rightarrow> real \<Rightarrow> call) \<Rightarrow> path_vars \<Rightarrow> surface \<Rightarrow> path_vars outcome" where
  \<comment> \<open>the branches \<open>c\<close> and \<open>C\<close>: three points\<close>
  "curve_command f v =
     bindS (lift (point (Some (string v)))) (\<lambda>(a1, b1, str1).
     bindS (lift (curve_points str1)) (\<lambda>((a2, b2), (a3, b3), str3).
     bindS (emit6 f a1 b1 a2 b2 a3 b3) (\<lambda>u.
     Done (v\<lparr>string := str3, x2 := a2, y2 := b2, x3 := a3, y3 := b3\<rparr>))))"

definition smooth_command ::
  "(real \<Rightarrow> real \<Rightarrow> real \<Rightarrow> real \<Rightarrow> real \<Rightarrow> real \<Rightarrow> call) \<Rightarrow> string \<Rightarrow> real \<Rightarrow> real \<Rightarrow>
   path_vars \<Rightarrow> surface \<Rightarrow> path_vars outcome" where
  \<comment> \<open>the branches \<open>S\<close> and \<open>s\<close>: the first control point from the previous curve, then two
      points\<close>
  "smooth_command f letters x y v =
     bindS (lift (reflected v letters x (x3 v) (x2 v))) (\<lambda>a1.
     bindS (lift (reflected v letters y (y3 v) (y2 v))) (\<lambda>b1.
     bindS (lift (curve_points (string v))) (\<lambda>((a2, b2), (a3, b3), str3).
     bindS (emit6 f (Some a1) (Some b1) a2 b2 a3 b3) (\<lambda>u.
     Done (v\<lparr>string := str3, x2 := a2, y2 := b2, x3 := a3, y3 := b3\<rparr>)))))"

definition point_command ::
  "(real \<Rightarrow> real \<Rightarrow> call) \<Rightarrow> path_vars \<Rightarrow> surface \<Rightarrow> path_vars outcome" where
  \<comment> \<open>the branches \<open>l\<close>, \<open>L\<close>, \<open>m\<close> and \<open>M\<close>: one point\<close>
  "point_command f v =
     bindS (lift (point (Some (string v)))) (\<lambda>(a, b, str1).
     bindS (emit2 f a b) (\<lambda>u.
     Done (v\<lparr>string := str1\<rparr>)))"

definition length_command ::
  "(real \<Rightarrow> call) \<Rightarrow> path_vars \<Rightarrow> surface \<Rightarrow> path_vars outcome" where
  \<comment> \<open>the branches \<open>h\<close>, \<open>V\<close> and \<open>v\<close>: one word, split off before \<open>size\<close> reads it\<close>
  "length_command f v =
     bindS (lift (split_first (string v))) (\<lambda>(a, str1).
     bindS (lift (size_py (Some a))) (\<lambda>a'.
     bindS (lift (num a')) (\<lambda>r.
     bindS (emit (f r)) (\<lambda>u.
     Done (v\<lparr>string := str1\<rparr>)))))"

definition path_command :: "env \<Rightarrow> string \<Rightarrow> path_vars \<Rightarrow> surface \<Rightarrow> path_vars outcome" where
  \<comment> \<open>the \<open>if\<close>/\<open>elif\<close> chain, in the order of the source\<close>
  "path_command E l v =
     (if l = ''c'' then curve_command RelCurveTo v
      else if l = ''C'' then curve_command CurveTo v
      else if l = ''h'' then length_command (\<lambda>x. RelLineTo x 0) v
      else if l = ''V'' then length_command (\<lambda>x. LineTo x 0) v
      else if l = ''l'' then point_command RelLineTo v
      else if l = ''L'' then point_command LineTo v
      else if l = ''m'' then point_command RelMoveTo v
      else if l = ''M'' then point_command MoveTo v
      else if l = ''S''
      then read (\<lambda>s. get_current_point E (calls s))
             (\<lambda>(x, y). smooth_command CurveTo ''CS'' x y v)
      else if l = ''s'' then smooth_command RelCurveTo ''cs'' 0 0 v
      else if l = ''v'' then length_command (\<lambda>y. RelLineTo 0 y) v
      else if l = ''V'' then length_command (\<lambda>y. LineTo 0 y) v
      else if l = ''X'' then Done (v\<lparr>string := []\<rparr>)
      else if py_lower l = ''z'' then bindS (emit ClosePath) (\<lambda>u. Done v)
      else Raised NotImplementedError)"

definition path_step :: "env \<Rightarrow> path_vars \<Rightarrow> surface \<Rightarrow> path_vars outcome" where
  \<comment> \<open>one iteration of the \<open>while\<close> loop\<close>
  "path_step E v =
     bindS (lift (read_letter v)) (\<lambda>v1.
     bindS (case letter v1 of
              None \<Rightarrow> lift (Inl UnboundLocalError)
            | Some l \<Rightarrow> path_command E l v1) (\<lambda>v2.
     Done (v2\<lparr>last_letter := letter v2, string := py_strip (string v2)\<rparr>)))"

fun path_loop :: "nat \<Rightarrow> env \<Rightarrow> path_vars \<Rightarrow> surface \<Rightarrow> unit outcome" where
  "path_loop fuel E v s =
     (if string v = [] then Done () s
      else
        (case fuel of
           0 \<Rightarrow> OutOfFuel
         | Suc n \<Rightarrow>
             (case path_step E v s of
                Done v' s' \<Rightarrow> path_loop n E v' s'
              | Raised e s' \<Rightarrow> Raised e s'
              | OutOfFuel \<Rightarrow> OutOfFuel)))"

declare path_loop.simps [simp del]

definition pad_letters :: "string \<Rightarrow> string" where
  \<comment> \<open>\<open>for letter in ASCII_LETTERS: string = string.replace(letter, " %s " % letter)\<close>\<close>
  "pad_letters str =
     foldl (\<lambda>acc l. py_replace [l] ([CHR '' '', l, CHR '' '']) acc) str ASCII_LETTERS"

definition path :: "nat \<Rightarrow> env \<Rightarrow> node \<Rightarrow> surface \<Rightarrow> node outcome" where
  "path fuel E node =
     (let node' = (if truthy (attrs node ''stroke-width'') then node
                   else Node (tag node) ((attrs node)(''stroke-width'' \<mapsto> ''1''))
                          (children node) (node_text node) (is_root node));
          str = py_strip (case attrs node' ''d'' of None \<Rightarrow> [] | Some d \<Rightarrow> d) @ ''XX'';
          v = \<lparr>string = normalize_py (pad_letters str), letter = None, last_letter = None,
               x2 = None, y2 = None, x3 = None, y3 = None\<rparr>
      in bindS (path_loop fuel E v) (\<lambda>u. Done node'))"

subsection \<open>The other tag handlers\<close>

definition set_attr :: "node \<Rightarrow> string \<Rightarrow> string \<Rightarrow> node" where
  "set_attr node k v =
     Node (tag node) ((attrs node)(k \<mapsto> v)) (children node) (node_text node) (is_root node)"

definition del_attr :: "node \<Rightarrow> string \<Rightarrow> node" where
  "del_attr node k =
     Node (tag node) ((attrs node)(k := None)) (children node) (node_text node) (is_root node)"

definition size_attr :: "node \<Rightarrow> string \<Rightarrow> surface \<Rightarrow> real option outcome" where
  \<comment> \<open>\<open>size(node.get(key))\<close>\<close>
  "size_attr node k = lift (size_py (attrs node k))"

definition circle :: "node \<Rightarrow> surface \<Rightarrow> node outcome" where
  "circle node =
     bindS (size_attr node ''x'') (\<lambda>x.
     bindS (size_attr node ''cx'') (\<lambda>cx.
     bindS (lift (add_num x cx)) (\<lambda>xc.
     bindS (size_attr node ''y'') (\<lambda>y.
     bindS (size_attr node ''cy'') (\<lambda>cy.
     bindS (lift (add_num y cy)) (\<lambda>yc.
     bindS (size_attr node ''r'') (\<lambda>r.
     bindS (lift (num r)) (\<lambda>r'.
     bindS (emit (Arc xc yc r' 0 (2 * math_pi))) (\<lambda>u.
     Done node)))))))))"

definition line :: "node \<Rightarrow> surface \<Rightarrow> node outcome" where
  "line node =
     bindS (size_attr node ''x1'') (\<lambda>a1.
     bindS (size_attr node ''y1'') (\<lambda>b1.
     bindS (size_attr node ''x2'') (\<lambda>a2.
     bindS (size_attr node ''y2'') (\<lambda>b2.
     bindS (emit2 MoveTo a1 b1) (\<lambda>u.
     bindS (emit2 LineTo a2 b2) (\<lambda>u.
     Done node))))))"

definition font_style_of :: "string option \<Rightarrow> font_slant" where
  \<comment> \<open>\<open>getattr(cairo, ("font_slant_%s" % style).upper(), cairo.FONT_SLANT_NORMAL)\<close>\<close>
  "font_style_of style =
     (let name = py_upper (case style of None \<Rightarrow> ''None'' | Some v \<Rightarrow> v)
      in if name = ''ITALIC'' then FONT_SLANT_ITALIC
         else if name = ''OBLIQUE'' then FONT_SLANT_OBLIQUE
         else FONT_SLANT_NORMAL)"

definition font_weight_of :: "string option \<Rightarrow> font_weight" where
  "font_weight_of weight =
     (let name = py_upper (case weight of None \<Rightarrow> ''None'' | Some v \<Rightarrow> v)
      in if name = ''BOLD'' then FONT_WEIGHT_BOLD else FONT_WEIGHT_NORMAL)"

definition set_source_color :: "env \<Rightarrow> string option \<Rightarrow> real \<Rightarrow> surface \<Rightarrow> unit outcome" where
  \<comment> \<open>\<open>self.context.set_source_rgba(*color(value, opacity))\<close>\<close>
  "set_source_color E v opacity =
     bindS (lift (color (COLORS E) v opacity)) (\<lambda>(r, g, b, a). emit (SetSourceRgba r g b a))"

definition anchor_shift :: "string option \<Rightarrow> real \<Rightarrow> real \<Rightarrow> real option \<Rightarrow> error + real option" where
  \<comment> \<open>the adjustment of \<open>x\<close> for \<open>text-anchor\<close>\<close>
  "anchor_shift text_anchor width x_bearing x =
     (if text_anchor = Some ''middle''
      then bindE (num x) (\<lambda>r. Inr (Some (r - (width / 2 + x_bearing))))
      else if text_anchor = Some ''end''
      then bindE (num x) (\<lambda>r. Inr (Some (r - (width + x_bearing))))
      else Inr x)"

definition text_node :: "node \<Rightarrow> node" where
  \<comment> \<open>the node after the default fill and \<open>node.text.strip("\n\r")\<close>\<close>
  "text_node node =
     (let node1 = (if truthy (attrs node ''fill'') then node
                   else set_attr node ''fill'' ''#000000'')
      in Node (tag node1) (attrs node1) (children node1)
           (Some (case node_text node1 of
                    None \<Rightarrow> []
                  | Some t \<Rightarrow> py_strip_chars [CHR 0x0A, CHR 0x0D] t))
           (is_root node1))"

definition text_font :: "node \<Rightarrow> surface \<Rightarrow> unit outcome" where
  "text_font node =
     bindS (lift (size_py (Some (case attrs node ''font-size'' of
                                   None \<Rightarrow> ''12pt'' | Some v \<Rightarrow> v)))) (\<lambda>font_size.
     bindS (emit (SelectFontFace
                    (case attrs node ''font-family'' of None \<Rightarrow> ''Sans'' | Some v \<Rightarrow> v)
                    (font_style_of (attrs node ''font-style''))
                    (font_weight_of (attrs node ''font-weight'')))) (\<lambda>u.
     bindS (lift (num font_size)) (\<lambda>fs.
     emit (SetFontSize fs))))"

definition remember_cursor :: "env \<Rightarrow> surface \<Rightarrow> unit outcome" where
  \<comment> \<open>\<open>self.cursor_position = self.context.get_current_point()\<close>\<close>
  "remember_cursor E s =
     Done () (s\<lparr>cursor_position := Some (get_current_point E (calls s))\<rparr>)"

definition text_show ::
  "env \<Rightarrow> node \<Rightarrow> string \<Rightarrow> real \<times> real \<times> real \<times> real \<times> real \<times> real \<Rightarrow> surface \<Rightarrow> node outcome" where
  "text_show E node txt extents =
     (case extents of (x_bearing, y_bearing, width, height, x_advance, y_advance) \<Rightarrow>
     bindS (size_attr node ''x'') (\<lambda>x0.
     bindS (size_attr node ''y'') (\<lambda>y.
     bindS (lift (anchor_shift (attrs node ''text-anchor'') width x_bearing x0)) (\<lambda>x.
     bindS (lift (float_attr (attrs node ''opacity''))) (\<lambda>opacity.
     bindS (emit2 MoveTo x y) (\<lambda>u.
     bindS (set_source_color E (attrs node ''fill'') opacity) (\<lambda>u.
     bindS (emit (ShowText txt)) (\<lambda>u.
     bindS (emit2 MoveTo x y) (\<lambda>u.
     bindS (emit (TextPath txt)) (\<lambda>u.
     bindS (remember_cursor E) (\<lambda>u.
     Done (set_attr node ''fill'' ''#00000000''))))))))))))"

definition text_tag :: "env \<Rightarrow> node \<Rightarrow> surface \<Rightarrow> node outcome" where
  \<comment> \<open>the method \<open>text\<close>\<close>
  "text_tag E node0 =
     (let node = text_node node0;
          txt = (case node_text node of None \<Rightarrow> [] | Some t \<Rightarrow> t)
      in bindS (text_font node) (\<lambda>u.
         read (\<lambda>s. text_extents E (calls s) txt) (text_show E node txt)))"

definition tspan :: "env \<Rightarrow> node \<Rightarrow> surface \<Rightarrow> node outcome" where
  "tspan E node =
     read cursor_position (\<lambda>cursor.
     case cursor of
        None \<Rightarrow> Raised AttributeError
      | Some (cx, cy) \<Rightarrow>
          bindS (if attrs node ''x'' \<noteq> None then size_attr node ''x'' else Done (Some cx)) (\<lambda>x.
          bindS (if attrs node ''y'' \<noteq> None then size_attr node ''y'' else Done (Some cy)) (\<lambda>y.
          bindS (size_attr node ''dx'') (\<lambda>dx.
          bindS (lift (add_num x dx)) (\<lambda>nx.
          bindS (size_attr (set_attr node ''x'' (float_str E nx)) ''dy'') (\<lambda>dy.
          bindS (lift (add_num y dy)) (\<lambda>ny.
          text_tag E
            (set_attr (set_attr node ''x'' (float_str E nx)) ''y'' (float_str E ny)))))))))"

subsection \<open>\<open>use\<close> and the size of the context\<close>

definition div_num :: "real option \<Rightarrow> real option \<Rightarrow> error + real" where
  "div_num a b =
     bindE (num a) (\<lambda>x.
     bindE (num b) (\<lambda>y.
     if y = 0 then Inl ZeroDivisionError else Inr (x / y)))"

definition or_else :: "real option \<Rightarrow> real option \<Rightarrow> real option" where
  \<comment> \<open>\<open>a or b\<close> on numbers and \<open>None\<close>\<close>
  "or_else a b = (if a = None \<or> a = Some 0 then b else a)"

fun sizes :: "string list \<Rightarrow> error + real option list" where
  "sizes [] = Inr []"
| "sizes (pos # rest) =
     bindE (size_py (Some pos)) (\<lambda>v. bindE (sizes rest) (\<lambda>vs. Inr (v # vs)))"

definition set_context_size ::
  "real option \<Rightarrow> real option \<Rightarrow> string option \<Rightarrow> surface \<Rightarrow> unit outcome" where
  \<comment> \<open>the method \<open>_set_context_size\<close>\<close>
  "set_context_size width height viewbox =
     (if truthy viewbox
      then
        bindS (lift (sizes (py_split_ws (the viewbox)))) (\<lambda>vs.
        case vs of
          [x, y, x_size, y_size] \<Rightarrow>
            bindS (lift (div_num (or_else width x_size) x_size)) (\<lambda>sx.
            bindS (lift (div_num (or_else height y_size) y_size)) (\<lambda>sy.
            bindS (emit (Scale sx sy)) (\<lambda>u.
            bindS (lift (num x)) (\<lambda>x'.
            bindS (lift (num y)) (\<lambda>y'.
            emit (Translate (- x') (- y')))))))
        | _ \<Rightarrow> lift (Inl ValueError))
      else Done ())"

definition path_join :: "string \<Rightarrow> string option \<Rightarrow> error + string" where
  \<comment> \<open>\<open>os.path.join(base, href)\<close> for one POSIX component\<close>
  "path_join base href =
     (case href of
        None \<Rightarrow> Inl TypeError
      | Some h \<Rightarrow>
          if startswith h ''/'' then Inr h
          else if base \<noteq> [] \<and> last base = CHR ''/'' then Inr (base @ h)
          else Inr (base @ ''/'' @ h))"

definition use_prepare :: "env \<Rightarrow> node \<Rightarrow> surface \<Rightarrow> (node \<times> node) outcome" where
  \<comment> \<open>the method \<open>use\<close> up to its call of \<open>draw\<close>: the node as it leaves it, and the tree
      that is drawn\<close>
  "use_prepare E node =
     bindS (size_attr node ''x'') (\<lambda>x.
     bindS (size_attr node ''y'') (\<lambda>y.
     bindS (emit2 Translate x y) (\<lambda>u.
     (let node' = del_attr (del_attr node ''x'') ''y''
      in
     bindS (lift (path_join ''/home/lize/Boulot/Kozea/Facturation''
                    (attrs node' ''{http://www.w3.org/1999/xlink}href''))) (\<lambda>href.
     bindS (lift (Tree E href node')) (\<lambda>tree.
     bindS (size_attr tree ''width'') (\<lambda>w.
     bindS (size_attr tree ''height'') (\<lambda>h.
     bindS (set_context_size w h (attrs tree ''viewBox'')) (\<lambda>u.
     Done (node', tree))))))))))"

subsection \<open>\<open>draw\<close>\<close>

definition enter :: "node \<Rightarrow> surface \<Rightarrow> unit outcome" where
  \<comment> \<open>the head of \<open>draw\<close>: save, move to \<open>(x, y)\<close>, apply the transform attribute\<close>
  "enter node =
     bindS (emit Save) (\<lambda>u.
     bindS (size_attr node ''x'') (\<lambda>x.
     bindS (size_attr node ''y'') (\<lambda>y.
     bindS (emit2 MoveTo x y) (\<lambda>u.
     transform node))))"

definition paint :: "env \<Rightarrow> node \<Rightarrow> surface \<Rightarrow> unit outcome" where
  \<comment> \<open>the stroke and the fill of \<open>draw\<close>\<close>
  "paint E node =
     bindS (lift (float_attr (attrs node ''opacity''))) (\<lambda>opacity.
     bindS (lift (float_attr (attrs node ''stroke-opacity''))) (\<lambda>so.
     bindS (lift (float_attr (attrs node ''fill-opacity''))) (\<lambda>fo.
     bindS (size_attr node ''stroke-width'') (\<lambda>w.
     bindS (lift (num w)) (\<lambda>w'.
     bindS (emit (SetLineWidth w')) (\<lambda>u.
     bindS (set_source_color E (attrs node ''stroke'') (opacity * so)) (\<lambda>u.
     bindS (emit StrokePreserve) (\<lambda>u.
     bindS (if attrs node ''fill-rule'' = Some ''evenodd''
            then emit SetFillRuleEvenOdd else Done ()) (\<lambda>u.
     bindS (set_source_color E (attrs node ''fill'') (opacity * fo)) (\<lambda>u.
     emit Fill))))))))))"

text \<open>
  \<open>hasattr(self, node.tag)\<close> finds every attribute of the surface object, not only the tag
  handlers. The attributes this module defines are modelled: calling a method with another
  signature or an attribute that is no method raises \<open>TypeError\<close>. Attributes inherited from
  \<open>object\<close> or added by a subclass are not modelled.
\<close>

definition not_a_handler :: "surface \<Rightarrow> string \<Rightarrow> bool" where
  "not_a_handler s name =
     (name \<in> set [''read'', ''_create_surface'', ''_set_context_size'',
                   ''bytesio'', ''cairo'', ''context'']
      \<or> (name = ''cursor_position'' \<and> cursor_position s \<noteq> None))"

definition handler :: "nat \<Rightarrow> env \<Rightarrow> node \<Rightarrow> surface \<Rightarrow> node outcome" where
  \<comment> \<open>\<open>if hasattr(self, node.tag): getattr(self, node.tag)(node)\<close> for the tags that do not
      call \<open>draw\<close>\<close>
  "handler fuel E node =
     (if tag node = ''circle'' then circle node
      else if tag node = ''path'' then path fuel E node
      else if tag node = ''line'' then line node
      else if tag node = ''tspan'' then tspan E node
      else if tag node = ''text'' then text_tag E node
      else read (\<lambda>s. not_a_handler s (tag node)) (\<lambda>other.
             if other then Raised TypeError else Done node))"

fun draw :: "nat \<Rightarrow> env \<Rightarrow> node \<Rightarrow> surface \<Rightarrow> unit outcome"
and call_tag :: "nat \<Rightarrow> env \<Rightarrow> node \<Rightarrow> surface \<Rightarrow> node outcome"
and draw_children :: "nat \<Rightarrow> env \<Rightarrow> node list \<Rightarrow> surface \<Rightarrow> unit outcome" where
  "draw 0 E node s = OutOfFuel"
| "draw (Suc n) E node s =
     (case enter node s of
        Raised e s1 \<Rightarrow> Raised e s1
      | OutOfFuel \<Rightarrow> OutOfFuel
      | Done u s1 \<Rightarrow>
          (case call_tag n E node s1 of
             Raised e s2 \<Rightarrow> Raised e s2
           | OutOfFuel \<Rightarrow> OutOfFuel
           | Done node' s2 \<Rightarrow>
               (case paint E node' s2 of
                  Raised e s3 \<Rightarrow> Raised e s3
                | OutOfFuel \<Rightarrow> OutOfFuel
                | Done u s3 \<Rightarrow>
                    (case draw_children n E (children node') s3 of
                       Raised e s4 \<Rightarrow> Raised e s4
                     | OutOfFuel \<Rightarrow> OutOfFuel
                     | Done u s4 \<Rightarrow>
                         if is_root node' then Done () s4 else emit Restore s4))))"
| "call_tag n E node s =
     (if tag node = ''use''
      then (case use_prepare E node s of
              Raised e s1 \<Rightarrow> Raised e s1
            | OutOfFuel \<Rightarrow> OutOfFuel
            | Done (node', tree) s1 \<Rightarrow>
                (case draw n E tree s1 of
                   Raised e s2 \<Rightarrow> Raised e s2
                 | OutOfFuel \<Rightarrow> OutOfFuel
                 | Done u s2 \<Rightarrow> Done node' s2))
      else if tag node = ''draw''
      then (case draw n E node s of
              Raised e s1 \<Rightarrow> Raised e s1
            | OutOfFuel \<Rightarrow> OutOfFuel
            | Done u s1 \<Rightarrow> Done node s1)
      else handler n E node s)"
| "draw_children n E [] s = Done () s"
| "draw_children n E (child # rest) s =
     (case draw n E child s of
        Raised e s1 \<Rightarrow> Raised e s1
      | OutOfFuel \<Rightarrow> OutOfFuel
      | Done u s1 \<Rightarrow> draw_children n E rest s1)"

declare call_tag.simps [simp del]

definition new_surface :: surface where
  "new_surface = \<lparr>calls = [], cursor_position = None\<rparr>"

definition Surface_init :: "nat \<Rightarrow> env \<Rightarrow> node \<Rightarrow> unit outcome" where
  \<comment> \<open>\<open>Surface.__init__\<close>; the abstract \<open>_create_surface\<close> is taken to succeed\<close>
  "Surface_init fuel E tree =
     bindS (size_attr tree ''width'') (\<lambda>width.
     bindS (size_attr tree ''height'') (\<lambda>height.
     draw fuel E tree)) new_surface"

section \<open>Definitions for the statements\<close>

text \<open>
  The number-list normalizer as the specification words it: a separator before each
  \<open>-\<close>, a space for each comma, and each run of spaces squeezed to one space.
\<close>

definition spec_expand_separators :: "string \<Rightarrow> string" where
  "spec_expand_separators s =
     concat (map (\<lambda>c. if c = CHR ''-'' then '' -'' else if c = CHR '','' then '' '' else [c]) s)"

fun spec_squeeze_spaces :: "string \<Rightarrow> string" where
  "spec_squeeze_spaces (a # b # cs) =
     (if a = CHR '' '' \<and> b = CHR '' '' then spec_squeeze_spaces (b # cs)
      else a # spec_squeeze_spaces (b # cs))"
| "spec_squeeze_spaces cs = cs"

text \<open>
  The unit that \<open>size\<close> selects: the first unit of the table, in its order, that occurs in
  the string (the test of the loop over \<open>UNITS.items()\<close>).
\<close>

fun first_unit :: "(string \<times> real option) list \<Rightarrow> string \<Rightarrow> string option" where
  "first_unit [] str = None"
| "first_unit ((unit, value) # units) str =
     (if contains unit str then Some unit else first_unit units str)"

definition selected_unit :: "string \<Rightarrow> string option" where
  "selected_unit str = first_unit UNITS str"

text \<open>
  The numbers of \<open>save\<close> and \<open>restore\<close> calls made on the context so far, the number of
  nodes of a tree and of its nodes that are not flagged as root, and the trees that hold no
  \<open>use\<close> element (whose \<open>draw\<close> loads no other document).
\<close>

definition saves :: "surface \<Rightarrow> nat" where
  "saves s = count_list (calls s) Save"

definition restores :: "surface \<Rightarrow> nat" where
  "restores s = count_list (calls s) Restore"

definition depth :: "surface \<Rightarrow> nat \<times> nat" where
  "depth s = (saves s, restores s)"







text \<open>The trees in which no \<open>text\<close> element is drawn: none of their own, and no \<open>use\<close>.\<close>

fun text_free :: "node \<Rightarrow> bool" where
  "text_free (Node t a cs x r) = (t \<noteq> ''text'' \<and> t \<noteq> ''use'' \<and> list_all text_free cs)"

text \<open>
  Properties of a step: it keeps a quantity of the surface, whether it returns or raises;
  a call leaves the quantity as it is; every value it returns satisfies a predicate; a
  step of more fuel agrees with it wherever it does not run out of fuel.
\<close>

definition keeps :: "(surface \<Rightarrow> 'x) \<Rightarrow> (surface \<Rightarrow> 'a outcome) \<Rightarrow> bool" where
  "keeps P m =
     (\<forall>s. case m s of
            Done a s' \<Rightarrow> P s' = P s
          | Raised e s' \<Rightarrow> P s' = P s
          | OutOfFuel \<Rightarrow> True)"

definition unaffected :: "(surface \<Rightarrow> 'x) \<Rightarrow> call \<Rightarrow> bool" where
  "unaffected P c = (\<forall>s. P (s\<lparr>calls := calls s @ [c]\<rparr>) = P s)"

definition returns :: "('a \<Rightarrow> bool) \<Rightarrow> (surface \<Rightarrow> 'a outcome) \<Rightarrow> bool" where
  "returns Q m = (\<forall>s. case m s of Done a s' \<Rightarrow> Q a | Raised e s' \<Rightarrow> True | OutOfFuel \<Rightarrow> True)"

definition same_shape :: "node \<Rightarrow> node \<Rightarrow> bool" where
  "same_shape node node' =
     (tag node' = tag node \<and> children node' = children node \<and> is_root node' = is_root node)"

definition extends :: "(surface \<Rightarrow> 'a outcome) \<Rightarrow> (surface \<Rightarrow> 'a outcome) \<Rightarrow> bool" where
  "extends m m' = (\<forall>s. m s = OutOfFuel \<or> m' s = m s)"

text \<open>
  Concrete inputs for the examples: collaborators that answer every query with zeros and
  load an empty document, a surface on which a scale was applied, the document of one
  circle, a document whose path holds the elliptical arc command, and a document that
  uses another one.
\<close>

definition example_env :: env where
  "example_env =
     \<lparr>COLORS = [''red'' \<mapsto> ''#ff0000''],
      Tree = (\<lambda>url parent. Inr (Node ''svg'' Map.empty [] None True)),
      get_current_point = (\<lambda>cs. (0, 0)),
      text_extents = (\<lambda>cs t. (0, 0, 0, 0, 0, 0)),
      float_str = (\<lambda>r. ''0'')\<rparr>"

definition scaled_surface :: surface where
  "scaled_surface = \<lparr>calls = [Save, Scale 3 3], cursor_position = None\<rparr>"

definition example_tree :: node where
  "example_tree =
     Node ''svg'' [''width'' \<mapsto> ''100'', ''height'' \<mapsto> ''100'']
       [Node ''circle''
          [''cx'' \<mapsto> ''50'', ''cy'' \<mapsto> ''50'', ''r'' \<mapsto> ''40'', ''fill'' \<mapsto> ''#ff0000'',
           ''stroke'' \<mapsto> ''#000000'', ''stroke-width'' \<mapsto> ''2'']
          [] None False]
       None True"

definition failing_tree :: node where
  "failing_tree =
     Node ''svg'' Map.empty [Node ''path'' [''d'' \<mapsto> ''A''] [] None False] None True"


section \<open>The value resolvers\<close>

subsection \<open>The number-list normalizer\<close>

lemma py_replace_char:
  "py_replace [x] new s = concat (map (\<lambda>c. if c = x then new else [c]) s)"
  by (induction s) auto

lemma spec_expand_separators_replace:
  "py_replace '','' '' '' (py_replace ''-'' '' -'' s) = spec_expand_separators s"
  unfolding py_replace_char spec_expand_separators_def
  by (induction s) auto

lemma squeeze_fixed: "\<not> contains ''  '' t \<Longrightarrow> spec_squeeze_spaces t = t"
  by (induction t rule: spec_squeeze_spaces.induct) auto

lemma squeeze_replace_cons:
  "spec_squeeze_spaces (x # py_replace ''  '' '' '' t) = spec_squeeze_spaces (x # t)"
proof (induction t arbitrary: x rule: length_induct)
  case (1 t)
  show ?case
  proof (cases t)
    case Nil
    then show ?thesis by simp
  next
    case (Cons a u)
    show ?thesis
    proof (cases u)
      case Nil
      with Cons show ?thesis by simp
    next
      case (Cons b cs)
      have ih: "length ys < length t \<Longrightarrow>
          spec_squeeze_spaces (y # py_replace ''  '' '' '' ys) = spec_squeeze_spaces (y # ys)" for ys y
        using 1 by blast
      have ih1: "spec_squeeze_spaces (y # py_replace ''  '' '' '' cs) = spec_squeeze_spaces (y # cs)" for y
        by (rule ih) (simp add: \<open>t = a # u\<close> Cons)
      have ih2: "spec_squeeze_spaces (y # py_replace ''  '' '' '' (b # cs)) = spec_squeeze_spaces (y # b # cs)" for y
        by (rule ih) (simp add: \<open>t = a # u\<close> Cons)
      show ?thesis
      proof (cases "a = CHR '' '' \<and> b = CHR '' ''")
        case True
        then have "py_replace ''  '' '' '' t = CHR '' '' # py_replace ''  '' '' '' cs"
          using \<open>t = a # u\<close> Cons by simp
        then show ?thesis using ih1 True \<open>t = a # u\<close> Cons by (simp del: py_replace.simps)
      next
        case False
        then have "py_replace ''  '' '' '' t = a # py_replace ''  '' '' '' (b # cs)"
          using \<open>t = a # u\<close> Cons by auto
        then show ?thesis using ih2 False \<open>t = a # u\<close> Cons by (simp del: py_replace.simps)
      qed
    qed
  qed
qed

lemma squeeze_replace:
  "spec_squeeze_spaces (py_replace ''  '' '' '' t) = spec_squeeze_spaces t"
proof -
  have "spec_squeeze_spaces (CHR ''x'' # py_replace ''  '' '' '' t) = spec_squeeze_spaces (CHR ''x'' # t)"
    by (rule squeeze_replace_cons)
  then show ?thesis
    by (cases t; cases "py_replace ''  '' '' '' t") (auto split: if_splits)
qed

lemma collapse_spaces_squeeze: "collapse_spaces t = spec_squeeze_spaces t"
proof (induction t rule: collapse_spaces.induct)
  case (1 string)
  show ?case
  proof (cases "contains ''  '' string")
    case True
    then show ?thesis
      using 1 by (subst collapse_spaces.simps) (simp add: squeeze_replace)
  next
    case False
    then show ?thesis
      by (subst collapse_spaces.simps) (simp add: squeeze_fixed)
  qed
qed

lemma collapse_spaces_no_double: "\<not> contains ''  '' (collapse_spaces t)"
proof (induction t rule: collapse_spaces.induct)
  case (1 string)
  then show ?case
    by (subst collapse_spaces.simps) simp
qed

lemma set_squeeze: "set (spec_squeeze_spaces t) \<subseteq> set t"
  by (induction t rule: spec_squeeze_spaces.induct) auto

lemma normalize_py_refines: "normalize_py s = spec_squeeze_spaces (spec_expand_separators s)"
  by (simp add: normalize_py_def spec_expand_separators_replace collapse_spaces_squeeze)

lemma comma_free: "CHR '','' \<notin> set (spec_expand_separators s)"
  by (induction s) (auto simp: spec_expand_separators_def)

text \<open>
  Claim C3, as amended. \<open>normalize\<close> puts a space before each \<open>-\<close>, turns each comma into
  a space and squeezes each run of space characters (U+0020) to one space: its result has
  no comma and no two consecutive spaces, and \<open>"-1-2"\<close> becomes \<open>" -1 -2"\<close>. Other whitespace
  characters are left as they are.
\<close>

theorem normalize_py_spaces:
  "normalize_py s = spec_squeeze_spaces (spec_expand_separators s)
   \<and> CHR '','' \<notin> set (normalize_py s)
   \<and> \<not> contains ''  '' (normalize_py s)
   \<and> normalize_py ''-1-2'' = '' -1 -2''"
proof -
  have a: "normalize_py s = spec_squeeze_spaces (spec_expand_separators s)"
    by (rule normalize_py_refines)
  have b: "CHR '','' \<notin> set (normalize_py s)"
    using set_squeeze [of "spec_expand_separators s"] comma_free [of s] unfolding a by blast
  have c: "\<not> contains ''  '' (normalize_py s)"
    unfolding normalize_py_def by (rule collapse_spaces_no_double)
  have d: "normalize_py ''-1-2'' = '' -1 -2''"
    by code_simp
  from a b c d show ?thesis by blast
qed

text \<open>
  The claim as stated, for every run of whitespace characters, fails on two tabs: they are
  whitespace, and the result still holds both.
\<close>

theorem normalize_py_tabs_counterexample:
  "normalize_py [CHR 0x09, CHR 0x09] = [CHR 0x09, CHR 0x09] \<and> isspace (CHR 0x09)"
  by code_simp

subsection \<open>Lengths\<close>

text \<open>
  Claim C8. For every unit of the table with a numeric factor and every numeral among
  \<open>0\<close>, \<open>1\<close>, \<open>-3.5\<close> and \<open>100\<close>, the numeral followed by the unit resolves to the numeral
  times the factor; the factors are \<open>mm = 72/25.4\<close>, \<open>cm = 72/2.54\<close>, \<open>in = 72\<close>, \<open>pt = 1\<close>,
  \<open>pc = 12\<close> and \<open>px = 1\<close>, and the other units are \<open>em\<close>, \<open>ex\<close> and \<open>%\<close>. An absent or empty
  string resolves to \<open>0\<close>, and \<open>"42"\<close> to \<open>42\<close>.
\<close>

theorem size_py_units:
  "list_all (\<lambda>(unit, value).
      case value of
        None \<Rightarrow> unit = ''em'' \<or> unit = ''ex'' \<or> unit = ''%''
      | Some factor \<Rightarrow>
          list_all (\<lambda>(numeral, v). size_py (Some (numeral @ unit)) = Inr (Some (v * factor)))
            [(''0'', 0), (''1'', 1), (''-3.5'', - 3.5), (''100'', 100)])
     UNITS
   \<and> map_of UNITS ''mm'' = Some (Some (72 / 25.4))
   \<and> map_of UNITS ''cm'' = Some (Some (72 / 2.54))
   \<and> map_of UNITS ''in'' = Some (Some 72)
   \<and> map_of UNITS ''pt'' = Some (Some 1)
   \<and> map_of UNITS ''pc'' = Some (Some 12)
   \<and> map_of UNITS ''px'' = Some (Some 1)
   \<and> size_py None = Inr (Some 0)
   \<and> size_py (Some []) = Inr (Some 0)
   \<and> size_py (Some ''42'') = Inr (Some 42)"
  by code_simp

lemma contains_set: "contains sub s \<Longrightarrow> set sub \<subseteq> set s"
proof (induction s)
  case Nil
  then show ?case by simp
next
  case (Cons c cs)
  have sw: "startswith t p \<Longrightarrow> set p \<subseteq> set t" for t p
    by (induction t p rule: startswith.induct) auto
  from Cons show ?case using sw [of "c # cs" sub] by auto
qed

lemma replace1_keeps: "c \<in> set s \<Longrightarrow> c \<noteq> x \<Longrightarrow> c \<in> set (py_replace1 [x] [] s)"
  by (induction s) auto

lemma dropWhile_keeps: "c \<in> set s \<Longrightarrow> \<not> P c \<Longrightarrow> c \<in> set (dropWhile P s)"
  by (induction s) auto

lemma not_plain_numeral:
  assumes "c \<in> set s" "c \<noteq> CHR ''.''" "c \<noteq> CHR '' ''" "c \<noteq> CHR ''-''" "\<not> is_digit c"
  shows "\<not> py_isdigit (py_lstrip_chars '' -'' (py_replace1 ''.'' [] s))"
proof -
  have "c \<in> set (py_lstrip_chars '' -'' (py_replace1 ''.'' [] s))"
    unfolding py_lstrip_chars_def using assms by (intro dropWhile_keeps replace1_keeps) auto
  with assms(5) show ?thesis
    by (auto simp: py_isdigit_def list_all_iff)
qed

lemma size_py_unit_branch:
  assumes "c \<in> set s" "c \<noteq> CHR ''.''" "c \<noteq> CHR '' ''" "c \<noteq> CHR ''-''" "\<not> is_digit c"
  shows "size_py (Some s) = size_units UNITS s"
  using not_plain_numeral [OF assms] assms(1) by (auto simp: size_py_def)

lemma py_float_errors: "py_float t = Inl e \<Longrightarrow> e = ValueError \<or> e = NonFiniteFloat"
  by (auto simp: py_float_def Let_def split: prod.splits if_splits option.splits)

lemma times_unit_None:
  "times_unit (py_float t) None = Inl TypeError \<or> times_unit (py_float t) None = Inl ValueError"
  using py_float_errors [of t] by (cases "py_float t") (auto simp: times_unit_def)

text \<open>
  Claim C4. When the unit that \<open>size\<close> selects in a string is \<open>em\<close>, \<open>ex\<close> or \<open>%\<close>, \<open>size\<close>
  returns no number: it raises, \<open>TypeError\<close> from the product with \<open>NotImplemented\<close>, or
  \<open>ValueError\<close> when what is left of the string is no numeral. \<open>"2em"\<close> and \<open>"50%"\<close> raise
  \<open>TypeError\<close>.
\<close>

theorem size_py_unresolved_unit:
  assumes "selected_unit s = Some u" and "u = ''em'' \<or> u = ''ex'' \<or> u = ''%''"
  shows "(size_py (Some s) = Inl TypeError \<or> size_py (Some s) = Inl ValueError)
         \<and> size_py (Some ''2em'') = Inl TypeError
         \<and> size_py (Some ''50%'') = Inl TypeError"
proof -
  have ex: "size_py (Some ''2em'') = Inl TypeError" by code_simp
  have pc: "size_py (Some ''50%'') = Inl TypeError" by code_simp
  from assms have c: "contains u s"
    by (auto simp: selected_unit_def UNITS_def split: if_splits)
  from assms have su: "size_units UNITS s = times_unit (py_float (py_strip_chars (CHR '' '' # u) s)) None"
    by (auto simp: selected_unit_def UNITS_def split: if_splits)
  have "\<exists>c. c \<in> set s \<and> c \<noteq> CHR ''.'' \<and> c \<noteq> CHR '' '' \<and> c \<noteq> CHR ''-'' \<and> \<not> is_digit c"
    using contains_set [OF c] assms(2) by (auto simp: is_digit_def)
  then obtain c where "c \<in> set s" "c \<noteq> CHR ''.''" "c \<noteq> CHR '' ''" "c \<noteq> CHR ''-''" "\<not> is_digit c"
    by blast
  then have "size_py (Some s) = size_units UNITS s"
    by (rule size_py_unit_branch)
  with su times_unit_None show ?thesis using ex pc by metis
qed

theorem size_py_unresolved_unit_witness:
  "selected_unit ''1.5ex'' = Some ''ex'' \<and> size_py (Some ''1.5ex'') = Inl TypeError"
proof -
  have a: "selected_unit ''1.5ex'' = Some ''ex''" by code_simp
  have b: "size_py (Some ''1.5ex'') \<noteq> Inl ValueError" by code_simp
  from size_py_unresolved_unit [OF a] b a show ?thesis by simp
qed

subsection \<open>Points\<close>






subsection \<open>Colours\<close>

text \<open>
  Claim C9. An absent colour and \<open>"none"\<close> resolve to \<open>(0, 0, 0, 0)\<close>; \<open>"#f00"\<close> resolves to
  \<open>(1, 0, 0, 1)\<close>; for \<open>"#ff000080"\<close> the alpha is the opacity multiplier times \<open>128/255\<close>.
  The two hexadecimal strings are taken not to be names of the colour table.
\<close>

theorem color_examples:
  assumes "table ''#f00'' = None" and "table ''#ff000080'' = None"
  shows "color table None opacity = Inr (0, 0, 0, 0)
         \<and> color table (Some ''none'') opacity = Inr (0, 0, 0, 0)
         \<and> color table (Some ''#f00'') 1 = Inr (1, 0, 0, 1)
         \<and> color table (Some ''#ff000080'') opacity = Inr (1, 0, 0, opacity * (128 / 255))"
proof -
  have low: "py_lower (py_strip ''#f00'') = ''#f00''" "py_lower (py_strip ''#ff000080'') = ''#ff000080''"
    by code_simp+
  have i: "py_int16 ''ff'' = Inr 255" "py_int16 ''00'' = Inr 0" "py_int16 ''80'' = Inr 128"
    by code_simp+
  show ?thesis
    using assms by (simp add: color_def low i py_slice_def)
qed

theorem color_examples_witness:
  "color [''red'' \<mapsto> ''#ff0000''] (Some ''#f00'') 1 = Inr (1, 0, 0, 1)
   \<and> color [''red'' \<mapsto> ''#ff0000''] (Some ''#ff000080'') (1 / 2) = Inr (1, 0, 0, 64 / 255)"
  using color_examples [of "[''red'' \<mapsto> ''#ff0000'']" "1 / 2"] by simp

section \<open>Steps of the renderer\<close>

subsection \<open>What the steps keep\<close>

lemma keepsI:
  assumes "\<And>s a s'. m s = Done a s' \<Longrightarrow> P s' = P s"
    and "\<And>s e s'. m s = Raised e s' \<Longrightarrow> P s' = P s"
  shows "keeps P m"
  unfolding keeps_def using assms by (auto split: outcome.splits)

lemma keeps_Done: "keeps P m \<Longrightarrow> m s = Done a s' \<Longrightarrow> P s' = P s"
  unfolding keeps_def by (erule allE [of _ s]) simp

lemma keeps_Raised: "keeps P m \<Longrightarrow> m s = Raised e s' \<Longrightarrow> P s' = P s"
  unfolding keeps_def by (erule allE [of _ s]) simp

lemma keeps_lift [intro!]: "keeps P (lift r)"
  by (cases r) (auto simp: keeps_def lift_def)

lemma keeps_return [intro!]: "keeps P (Done a)"
  by (simp add: keeps_def)

lemma keeps_raise [intro!]: "keeps P (Raised e)"
  by (simp add: keeps_def)

lemma keeps_emit: "unaffected P c \<Longrightarrow> keeps P (emit c)"
  by (simp add: keeps_def emit_def unaffected_def)

lemma keeps_bindS [intro!]:
  assumes "keeps P m" and "\<And>a. keeps P (f a)"
  shows "keeps P (bindS m f)"
proof (rule keepsI)
  fix s a s'
  assume "bindS m f s = Done a s'"
  then obtain b s1 where m: "m s = Done b s1" and f: "f b s1 = Done a s'"
    by (auto split: outcome.splits)
  from keeps_Done [OF assms(1) m] keeps_Done [OF assms(2) f] show "P s' = P s" by simp
next
  fix s e s'
  assume "bindS m f s = Raised e s'"
  then consider (a) "m s = Raised e s'" | (b) b s1 where "m s = Done b s1" "f b s1 = Raised e s'"
    by (auto split: outcome.splits)
  then show "P s' = P s"
  proof cases
    case a
    then show ?thesis by (rule keeps_Raised [OF assms(1)])
  next
    case b
    from keeps_Done [OF assms(1) b(1)] keeps_Raised [OF assms(2) b(2)] show ?thesis by simp
  qed
qed

lemma keeps_if [intro!]: "keeps P a \<Longrightarrow> keeps P b \<Longrightarrow> keeps P (if c then a else b)"
  by simp

lemma keeps_case_prod [intro!]: "(\<And>a b. keeps P (f a b)) \<Longrightarrow> keeps P (case p of (a, b) \<Rightarrow> f a b)"
  by (cases p) simp

lemma keeps_emit2: "(\<And>x y. unaffected P (f x y)) \<Longrightarrow> keeps P (emit2 f a b)"
  unfolding emit2_def by (intro keeps_bindS keeps_lift keeps_emit)

lemma keeps_emit6:
  "(\<And>a b c d e g. unaffected P (f a b c d e g)) \<Longrightarrow> keeps P (emit6 f a b c d e g)"
  unfolding emit6_def by (intro keeps_bindS keeps_lift keeps_emit)

lemma keeps_size_attr [intro!]: "keeps P (size_attr node k)"
  unfolding size_attr_def by (rule keeps_lift)

lemma unaffected_cursor [simp]: "unaffected cursor_position c"
  by (simp add: unaffected_def)

lemma unaffected_depth [simp]: "c \<noteq> Save \<Longrightarrow> c \<noteq> Restore \<Longrightarrow> unaffected depth c"
  by (simp add: unaffected_def depth_def saves_def restores_def)

lemma keeps_bind_lift:
  assumes "\<And>a. r = Inr a \<Longrightarrow> keeps P (f a)"
  shows "keeps P (bindS (lift r) f)"
proof (cases r)
  case (Inl e)
  then show ?thesis by (simp add: keeps_def lift_def)
next
  case (Inr a)
  from assms [OF Inr] show ?thesis
    using Inr by (simp add: keeps_def lift_def)
qed

lemma Matrix_call: "Matrix values = Inr c \<Longrightarrow> c \<noteq> Save \<and> c \<noteq> Restore"
  by (auto simp: Matrix_def Let_def split: if_splits)

lemma keeps_apply_transformation:
  "keeps cursor_position (apply_transformation ttype values)"
  "keeps depth (apply_transformation ttype values)"
  unfolding apply_transformation_def Let_def
  by (auto intro!: keeps_emit keeps_bind_lift dest: Matrix_call split: list.splits)

lemma keeps_transformation_types:
  assumes "\<And>ttype values. keeps P (apply_transformation ttype values)"
  shows "keeps P (transformation_types ttypes t)"
proof (induction ttypes arbitrary: t)
  case Nil
  show ?case by (rule keepsI) auto
next
  case (Cons ttype ttypes)
  show ?case
  proof (rule keepsI)
    fix s a s'
    assume "transformation_types (ttype # ttypes) t s = Done a s'"
    then show "P s' = P s"
      using keeps_Done [OF assms] keeps_Done [OF Cons]
      by (auto split: if_splits sum.splits outcome.splits; metis)
  next
    fix s e s'
    assume "transformation_types (ttype # ttypes) t s = Raised e s'"
    then show "P s' = P s"
      using keeps_Done [OF assms] keeps_Raised [OF assms] keeps_Raised [OF Cons]
      by (auto split: if_splits sum.splits outcome.splits; metis)
  qed
qed

lemma keeps_transformations:
  assumes "\<And>ttype values. keeps P (apply_transformation ttype values)"
  shows "keeps P (transformations ts)"
proof (induction ts)
  case Nil
  show ?case by (rule keepsI) auto
next
  case (Cons t ts)
  note tt = keeps_transformation_types [OF assms, of "[''scale'', ''translate'', ''matrix'']" t]
  show ?case
  proof (rule keepsI)
    fix s a s'
    assume "transformations (t # ts) s = Done a s'"
    then show "P s' = P s"
      using keeps_Done [OF tt] keeps_Done [OF Cons]
      by (auto split: outcome.splits; metis)
  next
    fix s e s'
    assume "transformations (t # ts) s = Raised e s'"
    then show "P s' = P s"
      using keeps_Done [OF tt] keeps_Raised [OF tt] keeps_Raised [OF Cons]
      by (auto split: outcome.splits; metis)
  qed
qed

lemma keeps_transform:
  "keeps cursor_position (transform node)" "keeps depth (transform node)"
proof -
  have "keeps P (transform node)" if "\<And>ttype values. keeps P (apply_transformation ttype values)"
    for P :: "surface \<Rightarrow> 'x"
  proof (rule keepsI)
    fix s a s'
    assume "transform node s = Done a s'"
    then show "P s' = P s"
      using keeps_Done [OF keeps_transformations [OF that]]
      by (auto simp: transform_def split: if_splits)
  next
    fix s e s'
    assume "transform node s = Raised e s'"
    then show "P s' = P s"
      using keeps_Raised [OF keeps_transformations [OF that]]
      by (auto simp: transform_def split: if_splits)
  qed
  then show "keeps cursor_position (transform node)" "keeps depth (transform node)"
    using keeps_apply_transformation by blast+
qed

lemma keeps_case_option [intro!]:
  "keeps P a \<Longrightarrow> (\<And>x. keeps P (f x)) \<Longrightarrow> keeps P (case v of None \<Rightarrow> a | Some x \<Rightarrow> f x)"
  by (cases v) simp_all

lemma keeps_read [intro!]: "(\<And>x. keeps P (g x)) \<Longrightarrow> keeps P (read h g)"
  by (simp add: keeps_def read_def)

lemma keeps_enter_rest:
  "keeps cursor_position (enter node)"
  unfolding enter_def
  by (intro keeps_bindS keeps_emit keeps_emit2 keeps_size_attr keeps_transform) simp_all

lemma keeps_paint:
  "keeps cursor_position (paint E node)" "keeps depth (paint E node)"
  unfolding paint_def set_source_color_def
  by (auto intro!: keeps_emit)

lemma keeps_circle:
  "keeps cursor_position (circle node)" "keeps depth (circle node)"
  unfolding circle_def by (auto intro!: keeps_emit)

lemma keeps_line:
  "keeps cursor_position (line node)" "keeps depth (line node)"
  unfolding line_def by (auto intro!: keeps_emit2)

lemma keeps_curve_command:
  "keeps cursor_position (curve_command f v)"
  "(\<And>a b c d e g. unaffected depth (f a b c d e g)) \<Longrightarrow> keeps depth (curve_command f v)"
  unfolding curve_command_def by (auto intro!: keeps_emit6)

lemma keeps_smooth_command:
  "keeps cursor_position (smooth_command f letters x y v)"
  "(\<And>a b c d e g. unaffected depth (f a b c d e g)) \<Longrightarrow> keeps depth (smooth_command f letters x y v)"
  unfolding smooth_command_def by (auto intro!: keeps_emit6)

lemma keeps_point_command:
  "keeps cursor_position (point_command f v)"
  "(\<And>a b. unaffected depth (f a b)) \<Longrightarrow> keeps depth (point_command f v)"
  unfolding point_command_def by (auto intro!: keeps_emit2)

lemma keeps_length_command:
  "keeps cursor_position (length_command f v)"
  "(\<And>a. unaffected depth (f a)) \<Longrightarrow> keeps depth (length_command f v)"
  unfolding length_command_def by (auto intro!: keeps_emit)

lemma keeps_path_command:
  "keeps cursor_position (path_command E l v)" "keeps depth (path_command E l v)"
  unfolding path_command_def
  by (intro keeps_if keeps_read keeps_case_prod keeps_bindS keeps_return keeps_raise keeps_emit
        keeps_curve_command keeps_smooth_command keeps_point_command keeps_length_command;
      simp)+

lemma keeps_path_step:
  "keeps cursor_position (path_step E v)" "keeps depth (path_step E v)"
  unfolding path_step_def by (auto intro!: keeps_path_command)

lemma keeps_path_loop:
  assumes "\<And>v. keeps P (path_step E v)"
  shows "keeps P (path_loop fuel E v)"
proof (induction fuel arbitrary: v)
  case 0
  show ?case by (rule keepsI) (auto simp: path_loop.simps split: if_splits)
next
  case (Suc n)
  show ?case
  proof (rule keepsI)
    fix s a s'
    assume "path_loop (Suc n) E v s = Done a s'"
    then show "P s' = P s"
      using keeps_Done [OF assms] keeps_Done [OF Suc]
      by (subst (asm) path_loop.simps) (auto split: if_splits outcome.splits; metis)
  next
    fix s e s'
    assume "path_loop (Suc n) E v s = Raised e s'"
    then show "P s' = P s"
      using keeps_Done [OF assms] keeps_Raised [OF assms] keeps_Raised [OF Suc]
      by (subst (asm) path_loop.simps) (auto split: if_splits outcome.splits; metis)
  qed
qed

lemma keeps_path:
  "keeps cursor_position (path fuel E node)" "keeps depth (path fuel E node)"
  unfolding path_def Let_def
  by (intro keeps_bindS keeps_path_loop keeps_path_step keeps_return)+







lemma keeps_handler_cursor:
  "tag node \<noteq> ''text'' \<Longrightarrow> tag node \<noteq> ''tspan'' \<Longrightarrow> keeps cursor_position (handler fuel E node)"
  unfolding handler_def
  by (auto intro!: keeps_circle keeps_path keeps_line)


subsection \<open>The shape of \<open>draw\<close>\<close>

lemma bindS_Done:
  "bindS m f s = Done a s' \<longleftrightarrow> (\<exists>b s1. m s = Done b s1 \<and> f b s1 = Done a s')"
  by (auto split: outcome.splits)

lemma bindS_Raised:
  "bindS m f s = Raised e s' \<longleftrightarrow>
     (m s = Raised e s' \<or> (\<exists>b s1. m s = Done b s1 \<and> f b s1 = Raised e s'))"
  by (auto split: outcome.splits)

lemma draw_Suc:
  "draw (Suc n) E node =
     bindS (enter node) (\<lambda>u.
     bindS (call_tag n E node) (\<lambda>node'.
     bindS (paint E node') (\<lambda>u.
     bindS (draw_children n E (children node')) (\<lambda>u.
     if is_root node' then Done () else emit Restore))))"
  by (rule ext) (simp split: outcome.splits)

lemma draw_children_Cons:
  "draw_children n E (child # rest) = bindS (draw n E child) (\<lambda>u. draw_children n E rest)"
  by (rule ext) (simp split: outcome.splits)

lemma call_tag_use:
  "tag node = ''use'' \<Longrightarrow>
   call_tag n E node =
     bindS (use_prepare E node) (\<lambda>(node', tree). bindS (draw n E tree) (\<lambda>u. Done node'))"
  by (rule ext) (simp add: call_tag.simps split: outcome.splits prod.splits)

lemma call_tag_draw:
  "tag node = ''draw'' \<Longrightarrow> call_tag n E node = bindS (draw n E node) (\<lambda>u. Done node)"
  by (rule ext) (simp add: call_tag.simps split: outcome.splits)

lemma call_tag_handler:
  "tag node \<noteq> ''use'' \<Longrightarrow> tag node \<noteq> ''draw'' \<Longrightarrow> call_tag n E node = handler n E node"
  by (rule ext) (simp add: call_tag.simps)

lemma returns_Done: "returns Q m \<Longrightarrow> m s = Done a s' \<Longrightarrow> Q a"
  unfolding returns_def by (erule allE [of _ s]) simp

lemma returns_return [intro!]: "Q a \<Longrightarrow> returns Q (Done a)"
  by (simp add: returns_def)

lemma returns_raise [intro!]: "returns Q (Raised e)"
  by (simp add: returns_def)

lemma returnsI: "(\<And>s a s'. m s = Done a s' \<Longrightarrow> Q a) \<Longrightarrow> returns Q m"
  unfolding returns_def by (auto split: outcome.splits)

lemma returns_bindS [intro!]:
  assumes "\<And>a. returns Q (f a)"
  shows "returns Q (bindS m f)"
proof (rule returnsI)
  fix s a s'
  assume "bindS m f s = Done a s'"
  then obtain b s1 where "f b s1 = Done a s'"
    unfolding bindS_Done by blast
  then show "Q a" by (rule returns_Done [OF assms])
qed

lemma returns_read [intro!]: "(\<And>x. returns Q (g x)) \<Longrightarrow> returns Q (read h g)"
  by (simp add: returns_def read_def)

lemma returns_if [intro!]: "returns Q a \<Longrightarrow> returns Q b \<Longrightarrow> returns Q (if c then a else b)"
  by simp

lemma returns_case_option [intro!]:
  "returns Q a \<Longrightarrow> (\<And>x. returns Q (f x)) \<Longrightarrow> returns Q (case v of None \<Rightarrow> a | Some x \<Rightarrow> f x)"
  by (cases v) simp_all

lemma returns_case_prod [intro!]:
  "(\<And>a b. returns Q (f a b)) \<Longrightarrow> returns Q (case p of (a, b) \<Rightarrow> f a b)"
  by (cases p) simp

lemma same_shape_simps [simp]:
  "same_shape node node"
  "same_shape node (set_attr node' k v) = same_shape node node'"
  "same_shape node (text_node node') = same_shape node node'"
  by (simp_all add: same_shape_def set_attr_def text_node_def Let_def)

lemma returns_text_show:
  "same_shape node0 node \<Longrightarrow> returns (same_shape node0) (text_show E node txt extents)"
  unfolding text_show_def
  by (intro returns_case_prod returns_bindS returns_return) simp

lemma returns_text_tag: "same_shape node0 node \<Longrightarrow> returns (same_shape node0) (text_tag E node)"
  unfolding text_tag_def Let_def
  by (intro returns_bindS returns_read returns_text_show) simp

lemma returns_tspan: "returns (same_shape node) (tspan E node)"
  unfolding tspan_def
  by (intro returns_read returns_case_option returns_case_prod returns_bindS returns_raise
        returns_text_tag) simp

lemma returns_circle: "returns (same_shape node) (circle node)"
  unfolding circle_def by (intro returns_bindS returns_return) simp

lemma returns_line: "returns (same_shape node) (line node)"
  unfolding line_def by (intro returns_bindS returns_return) simp

lemma returns_path: "returns (same_shape node) (path fuel E node)"
  unfolding path_def Let_def
  by (intro returns_bindS returns_return) (simp add: same_shape_def)

lemma returns_handler: "returns (same_shape node) (handler fuel E node)"
  unfolding handler_def
  by (intro returns_if returns_read returns_circle returns_path returns_line returns_tspan
        returns_text_tag returns_raise returns_return) simp_all

lemma handler_shape:
  "handler fuel E node s = Done node' s' \<Longrightarrow>
   children node' = children node \<and> is_root node' = is_root node"
  using returns_Done [OF returns_handler] by (fastforce simp: same_shape_def)


declare bindS.simps [simp del]


declare bindS.simps [simp del]

section \<open>Fuel\<close>

lemma extends_refl [intro!]: "extends m m"
  by (simp add: extends_def)

lemma extends_bindS [intro!]:
  assumes "extends m m'" and "\<And>a. extends (f a) (f' a)"
  shows "extends (bindS m f) (bindS m' f')"
  unfolding extends_def
proof
  fix s
  from assms(1) have a: "m s = OutOfFuel \<or> m' s = m s" by (simp add: extends_def)
  show "bindS m f s = OutOfFuel \<or> bindS m' f' s = bindS m f s"
  proof (cases "m s")
    case (Done b s1)
    from assms(2) [of b] have "f b s1 = OutOfFuel \<or> f' b s1 = f b s1" by (simp add: extends_def)
    with Done a show ?thesis by (auto simp: bindS.simps)
  next
    case (Raised e s1)
    with a show ?thesis by (simp add: bindS.simps)
  next
    case OutOfFuel
    then show ?thesis by (simp add: bindS.simps)
  qed
qed

lemma extendsD: "extends m m' \<Longrightarrow> m s = r \<Longrightarrow> r \<noteq> OutOfFuel \<Longrightarrow> m' s = r"
  by (auto simp: extends_def)

lemma path_loop_extends: "extends (path_loop n E v) (path_loop (n + k) E v)"
proof (induction n arbitrary: v)
  case 0
  show ?case by (simp add: extends_def path_loop.simps [of 0] path_loop.simps [of k])
next
  case (Suc n)
  show ?case
    unfolding extends_def
  proof
    fix s
    show "path_loop (Suc n) E v s = OutOfFuel \<or> path_loop (Suc n + k) E v s = path_loop (Suc n) E v s"
    proof (cases "string v = []")
      case True
      then show ?thesis by (simp add: path_loop.simps [of "Suc n"] path_loop.simps [of "Suc (n + k)"])
    next
      case False
      show ?thesis
      proof (cases "path_step E v s")
        case (Done v' s')
        from Suc [of v'] have "path_loop n E v' s' = OutOfFuel \<or> path_loop (n + k) E v' s' = path_loop n E v' s'"
          by (simp add: extends_def)
        with False Done show ?thesis
          by (simp add: path_loop.simps [of "Suc n"] path_loop.simps [of "Suc (n + k)"])
      qed (use False in \<open>simp_all add: path_loop.simps [of "Suc n"] path_loop.simps [of "Suc (n + k)"]\<close>)
    qed
  qed
qed

lemma path_extends: "extends (path n E node) (path (n + k) E node)"
  unfolding path_def Let_def by (intro extends_bindS path_loop_extends extends_refl)

lemma handler_extends: "extends (handler n E node) (handler (n + k) E node)"
  unfolding handler_def by (auto intro: path_extends)

lemma call_tag_extends:
  assumes "\<And>node. extends (draw n E node) (draw m E node)"
    and "extends (handler n E node) (handler m E node)"
  shows "extends (call_tag n E node) (call_tag m E node)"
proof -
  consider "tag node = ''use''" | "tag node = ''draw''" | "tag node \<noteq> ''use''" "tag node \<noteq> ''draw''"
    by blast
  then show ?thesis
  proof cases
    case 1
    show ?thesis unfolding call_tag_use [OF 1]
      by (intro extends_bindS extends_refl) (auto intro!: extends_bindS assms(1))
  next
    case 2
    show ?thesis unfolding call_tag_draw [OF 2]
      by (intro extends_bindS extends_refl assms(1))
  next
    case 3
    show ?thesis unfolding call_tag_handler [OF 3]
      by (rule assms(2))
  qed
qed

lemma draw_children_extends:
  assumes "\<And>node. extends (draw n E node) (draw m E node)"
  shows "extends (draw_children n E cs) (draw_children m E cs)"
proof (induction cs)
  case Nil
  show ?case by (simp add: extends_def)
next
  case (Cons c cs)
  show ?case unfolding draw_children_Cons
    by (intro extends_bindS assms Cons)
qed

lemma draw_extends: "n \<le> m \<Longrightarrow> extends (draw n E node) (draw m E node)"
proof (induction n arbitrary: m node)
  case 0
  show ?case by (simp add: extends_def)
next
  case (Suc n)
  then obtain m' where m: "m = Suc m'" and le: "n \<le> m'"
    by (cases m) auto
  have d: "extends (draw n E node) (draw m' E node)" for node
    by (rule Suc.IH [OF le])
  have h: "extends (handler n E node) (handler m' E node)" for node
    using handler_extends [of n E node "m' - n"] le by simp
  show ?case
    unfolding m draw_Suc
    by (intro extends_bindS extends_refl call_tag_extends draw_children_extends d h)
qed

theorem draw_more_fuel:
  "draw n E node s = r \<Longrightarrow> r \<noteq> OutOfFuel \<Longrightarrow> n \<le> m \<Longrightarrow> draw m E node s = r"
  using draw_extends [of n m E node] by (auto simp: extends_def)


section \<open>Save and restore\<close>





lemma draw_tag_never_returns: "tag node = ''draw'' \<Longrightarrow> draw n E node s \<noteq> Done u s'"
proof (induction n arbitrary: s s' u)
  case 0
  show ?case by simp
next
  case (Suc n)
  show ?case
    unfolding draw_Suc call_tag_draw [OF Suc.prems] bindS_Done
    using Suc.IH [OF Suc.prems] by blast
qed
















section \<open>The text cursor\<close>

lemma text_free_sel:
  "text_free node =
     (tag node \<noteq> ''text'' \<and> tag node \<noteq> ''use'' \<and> list_all text_free (children node))"
  by (cases node) simp

lemma tspan_no_cursor: "cursor_position s = None \<Longrightarrow> tspan E node s = Raised AttributeError s"
  by (simp add: tspan_def read_def)

lemma text_tag_cursor:
  assumes "text_tag E node s = Done node' s'"
  shows "cursor_position s' = Some (get_current_point E (calls s'))"
proof -
  have *: "cursor_position s' = Some (get_current_point E (calls s'))"
    if "text_show E n t0 ext0 s0 = Done node' s'" for n t0 ext0 s0
    using that unfolding text_show_def
    by (auto simp: bindS_Done remember_cursor_def split: prod.splits)
  from assms obtain n t0 ext0 s0 where "text_show E n t0 ext0 s0 = Done node' s'"
    unfolding text_tag_def Let_def bindS_Done read_def by blast
  then show ?thesis by (rule *)
qed

lemma handler_no_cursor:
  assumes "tag node \<noteq> ''text''" and "cursor_position s = None"
    and "handler n E node s = Done node' s' \<or> handler n E node s = Raised e s'"
  shows "cursor_position s' = None"
proof (cases "tag node = ''tspan''")
  case True
  then have "handler n E node s = Raised AttributeError s"
    using tspan_no_cursor [OF assms(2)] by (simp add: handler_def)
  with assms(2,3) show ?thesis by auto
next
  case False
  note k = keeps_handler_cursor [OF assms(1) False]
  from assms(3) keeps_Done [OF k] keeps_Raised [OF k] have "cursor_position s' = cursor_position s"
    by blast
  with assms(2) show ?thesis by simp
qed

lemma draw_children_no_cursor:
  assumes D: "\<forall>node s s' r. text_free node \<longrightarrow> cursor_position s = None \<longrightarrow>
                (draw n E node s = Done () s' \<or> draw n E node s = Raised r s') \<longrightarrow>
                cursor_position s' = None"
    and u: "list_all text_free cs" and c: "cursor_position s = None"
    and r: "draw_children n E cs s = Done () s' \<or> draw_children n E cs s = Raised e s'"
  shows "cursor_position s' = None"
  using u c r
proof (induction cs arbitrary: s)
  case Nil
  then show ?case by auto
next
  case (Cons c cs)
  from Cons.prems(1) have uc: "text_free c" and ucs: "list_all text_free cs" by simp_all
  from Cons.prems(3) consider
      (a) "draw n E c s = Raised e s'"
    | (b) s1 where "draw n E c s = Done () s1"
          "draw_children n E cs s1 = Done () s' \<or> draw_children n E cs s1 = Raised e s'"
    unfolding draw_children_Cons bindS_Raised bindS_Done by auto
  then show ?case
  proof cases
    case a
    with D uc Cons.prems(2) show ?thesis by blast
  next
    case b
    from D uc Cons.prems(2) b(1) have "cursor_position s1 = None" by blast
    from Cons.IH [OF ucs this b(2)] show ?thesis .
  qed
qed

lemma draw_no_cursor:
  "text_free node \<Longrightarrow> cursor_position s = None \<Longrightarrow>
   draw n E node s = Done () s' \<or> draw n E node s = Raised e s' \<Longrightarrow>
   cursor_position s' = None"
proof (induction n arbitrary: node s s' e)
  case 0
  then show ?case by simp
next
  case (Suc n)
  have D: "\<forall>node s s' r. text_free node \<longrightarrow> cursor_position s = None \<longrightarrow>
             (draw n E node s = Done () s' \<or> draw n E node s = Raised r s') \<longrightarrow>
             cursor_position s' = None"
    using Suc.IH by blast
  from Suc.prems(1) have tg: "tag node \<noteq> ''text''" "tag node \<noteq> ''use''"
    and ucs: "list_all text_free (children node)"
    by (simp_all add: text_free_sel)
  have ct: "cursor_position s2 = None \<and> (\<forall>node'. r = Done node' s2 \<longrightarrow> children node' = children node)"
    if "cursor_position s1 = None" "call_tag n E node s1 = r" "r = Done node' s2 \<or> r = Raised e s2"
    for s1 s2 r node'
  proof (cases "tag node = ''draw''")
    case True
    have nd: "r \<noteq> Done node'' s2" for node''
    proof
      assume "r = Done node'' s2"
      with that(2) have "bindS (draw n E node) (\<lambda>u. Done node) s1 = Done node'' s2"
        unfolding call_tag_draw [OF True] by simp
      then show False
        unfolding bindS_Done using draw_tag_never_returns [OF True] by blast
    qed
    with that(3) have "call_tag n E node s1 = Raised e s2"
      using that(2) by blast
    then have "draw n E node s1 = Raised e s2"
      unfolding call_tag_draw [OF True] bindS_Raised by blast
    with D Suc.prems(1) that(1) have "cursor_position s2 = None" by blast
    with nd show ?thesis by blast
  next
    case False
    have h: "call_tag n E node = handler n E node"
      using tg(2) False by (rule call_tag_handler)
    from that have "cursor_position s2 = None"
      unfolding h using handler_no_cursor [OF tg(1) that(1)] by blast
    moreover have "children node'' = children node" if "r = Done node'' s2" for node''
      using that \<open>call_tag n E node s1 = r\<close> handler_shape unfolding h by blast
    ultimately show ?thesis by blast
  qed
  from Suc.prems(3) consider
      (a) "enter node s = Raised e s'"
    | (b) s1 where "enter node s = Done () s1" "call_tag n E node s1 = Raised e s'"
    | (c) s1 node' s2 where "enter node s = Done () s1" "call_tag n E node s1 = Done node' s2"
          "paint E node' s2 = Raised e s'"
    | (d) s1 node' s2 s3 where "enter node s = Done () s1" "call_tag n E node s1 = Done node' s2"
          "paint E node' s2 = Done () s3"
          "draw_children n E (children node') s3 = Raised e s'"
    | (f) s1 node' s2 s3 s4 where "enter node s = Done () s1" "call_tag n E node s1 = Done node' s2"
          "paint E node' s2 = Done () s3" "draw_children n E (children node') s3 = Done () s4"
          "(if is_root node' then Done () else emit Restore) s4 = Done () s'
           \<or> (if is_root node' then Done () else emit Restore) s4 = Raised e s'"
    unfolding draw_Suc bindS_Raised bindS_Done by auto
  then show ?case
  proof cases
    case a
    from keeps_Raised [OF keeps_enter_rest a] Suc.prems(2) show ?thesis by simp
  next
    case b
    from keeps_Done [OF keeps_enter_rest b(1)] Suc.prems(2) have "cursor_position s1 = None" by simp
    from ct [OF this b(2)] show ?thesis by blast
  next
    case c
    from keeps_Done [OF keeps_enter_rest c(1)] Suc.prems(2) have "cursor_position s1 = None" by simp
    from ct [OF this c(2)] have "cursor_position s2 = None" by blast
    with keeps_Raised [OF keeps_paint(1) c(3)] show ?thesis by simp
  next
    case d
    from keeps_Done [OF keeps_enter_rest d(1)] Suc.prems(2) have "cursor_position s1 = None" by simp
    from ct [OF this d(2)] have c2: "cursor_position s2 = None" and sh: "children node' = children node"
      by blast+
    with keeps_Done [OF keeps_paint(1) d(3)] have "cursor_position s3 = None" by simp
    from draw_children_no_cursor [OF D _ this] ucs sh d(4) show ?thesis by metis
  next
    case f
    from keeps_Done [OF keeps_enter_rest f(1)] Suc.prems(2) have "cursor_position s1 = None" by simp
    from ct [OF this f(2)] have c2: "cursor_position s2 = None" and sh: "children node' = children node"
      by blast+
    with keeps_Done [OF keeps_paint(1) f(3)] have "cursor_position s3 = None" by simp
    from draw_children_no_cursor [OF D _ this] ucs sh f(4) have "cursor_position s4 = None" by metis
    with f(5) show ?thesis by (auto simp: emit_def split: if_splits)
  qed
qed

lemma draw_tspan_no_cursor:
  assumes "tag node = ''tspan''" and "cursor_position s = None"
  shows "draw (Suc n) E node s =
           (case enter node s of
              Done u s1 \<Rightarrow> Raised AttributeError s1
            | Raised e s1 \<Rightarrow> Raised e s1
            | OutOfFuel \<Rightarrow> OutOfFuel)"
proof (cases "enter node s")
  case (Done u s1)
  from keeps_Done [OF keeps_enter_rest Done] assms(2) have "cursor_position s1 = None" by simp
  then have "handler n E node s1 = Raised AttributeError s1"
    using assms(1) tspan_no_cursor by (simp add: handler_def)
  then have "call_tag n E node s1 = Raised AttributeError s1"
    using assms(1) by (simp add: call_tag.simps)
  with Done show ?thesis by simp
qed simp_all


text \<open>
  Claim C10. A new surface has no text cursor. On a surface without cursor the \<open>tspan\<close>
  handler raises \<open>AttributeError\<close> whatever the attributes of the node, its own \<open>x\<close> and \<open>y\<close>
  included, and so does \<open>draw\<close> of a \<open>tspan\<close> node once the head of \<open>draw\<close> has passed. The
  \<open>text\<close> handler, when it returns, has set the cursor to the backend's current point; and
  drawing a tree that holds no \<open>text\<close> and no \<open>use\<close> element leaves a surface without
  cursor as it is.
\<close>

theorem tspan_before_text:
  "cursor_position new_surface = None
   \<and> (cursor_position s = None \<longrightarrow> tspan E node s = Raised AttributeError s)
   \<and> (cursor_position s = None \<and> tag node = ''tspan''
      \<longrightarrow> draw (Suc n) E node s =
            (case enter node s of
               Done u s1 \<Rightarrow> Raised AttributeError s1
             | Raised e s1 \<Rightarrow> Raised e s1
             | OutOfFuel \<Rightarrow> OutOfFuel))
   \<and> (text_tag E node s = Done node' s'
      \<longrightarrow> cursor_position s' = Some (get_current_point E (calls s')))
   \<and> (text_free node \<and> cursor_position s = None
        \<and> (draw n E node s = Done () s' \<or> draw n E node s = Raised e s')
      \<longrightarrow> cursor_position s' = None)"
proof -
  have "cursor_position new_surface = None"
    by (simp add: new_surface_def)
  moreover have "cursor_position s = None \<longrightarrow> tspan E node s = Raised AttributeError s"
    using tspan_no_cursor by blast
  moreover have "cursor_position s = None \<and> tag node = ''tspan''
      \<longrightarrow> draw (Suc n) E node s =
            (case enter node s of
               Done u s1 \<Rightarrow> Raised AttributeError s1
             | Raised e s1 \<Rightarrow> Raised e s1
             | OutOfFuel \<Rightarrow> OutOfFuel)"
    by (intro impI, elim conjE, rule draw_tspan_no_cursor)
  moreover have "text_tag E node s = Done node' s'
      \<longrightarrow> cursor_position s' = Some (get_current_point E (calls s'))"
    by (intro impI, rule text_tag_cursor)
  moreover have "text_free node \<and> cursor_position s = None
        \<and> (draw n E node s = Done () s' \<or> draw n E node s = Raised e s')
      \<longrightarrow> cursor_position s' = None"
    by (intro impI, elim conjE, rule draw_no_cursor)
  ultimately show ?thesis by (intro conjI) assumption+
qed

theorem tspan_before_text_witness:
  "draw 1 example_env (Node ''tspan'' [''x'' \<mapsto> ''1'', ''y'' \<mapsto> ''2''] [] (Some ''hi'') False)
     new_surface
     = Raised AttributeError \<lparr>calls = [Save, MoveTo 1 2], cursor_position = None\<rparr>
   \<and> tspan example_env (Node ''tspan'' [''x'' \<mapsto> ''1'', ''y'' \<mapsto> ''2''] [] (Some ''hi'') False)
       new_surface
     = Raised AttributeError new_surface
   \<and> (\<exists>node' s'. text_tag example_env (Node ''text'' [''x'' \<mapsto> ''1''] [] (Some ''hi'') False)
                     new_surface = Done node' s'
                 \<and> cursor_position s' = Some (0, 0))
   \<and> (\<exists>s'. draw 3 example_env example_tree new_surface = Done () s' \<and> cursor_position s' = None)"
proof -
  let ?ts = "Node ''tspan'' [''x'' \<mapsto> ''1'', ''y'' \<mapsto> ''2''] [] (Some ''hi'') False"
  let ?tx = "Node ''text'' [''x'' \<mapsto> ''1''] [] (Some ''hi'') False"
  note T = tspan_before_text [where E = example_env and s = new_surface]
  have c0: "cursor_position new_surface = None" using T by blast
  have en: "enter ?ts new_surface = Done () \<lparr>calls = [Save, MoveTo 1 2], cursor_position = None\<rparr>"
    by code_simp
  have "tag ?ts = ''tspan''" by simp
  with T [where node = ?ts and n = 0] c0 en
  have 1: "draw 1 example_env ?ts new_surface
             = Raised AttributeError \<lparr>calls = [Save, MoveTo 1 2], cursor_position = None\<rparr>"
    by simp
  from T [where node = ?ts] c0
  have 2: "tspan example_env ?ts new_surface = Raised AttributeError new_surface" by blast
  have "case text_tag example_env ?tx new_surface of Done node' s' \<Rightarrow> True | _ \<Rightarrow> False"
    by code_simp
  then obtain node' s3 where t: "text_tag example_env ?tx new_surface = Done node' s3"
    by (auto split: outcome.splits)
  with T [where node = ?tx and node' = node' and s' = s3]
  have "cursor_position s3 = Some (get_current_point example_env (calls s3))" by blast
  then have 3: "cursor_position s3 = Some (0, 0)" by (simp add: example_env_def)
  have tf: "text_free example_tree" by code_simp
  have "case draw 3 example_env example_tree new_surface of Done u s' \<Rightarrow> True | _ \<Rightarrow> False"
    by code_simp
  then obtain s4 where d: "draw 3 example_env example_tree new_surface = Done () s4"
    by (auto split: outcome.splits)
  with T [where node = example_tree and n = 3 and s' = s4] tf c0
  have 4: "cursor_position s4 = None" by blast
  from 1 2 t 3 d 4 show ?thesis by blast
qed

section \<open>The transform attribute\<close>

lemma apply_matrix:
  "apply_transformation ''matrix'' [Some a, Some b, Some c, Some d, Some e, Some f] s
     = emit (SetMatrix a b c d e f) s"
  by (simp add: apply_transformation_def Matrix_def lift_def bindS.simps)

lemma apply_scale_translate:
  "apply_transformation ''scale'' [Some v] s = emit (Scale v v) s"
  "apply_transformation ''translate'' [Some v] s = emit (Translate v v) s"
  "apply_transformation ''scale'' [Some v, Some w] s = emit (Scale v w) s"
  "apply_transformation ''translate'' [Some v, Some w] s = emit (Translate v w) s"
  by (simp_all add: apply_transformation_def num_def lift_def bindS.simps)

lemma contains_Nil: "sub \<noteq> [] \<Longrightarrow> \<not> contains sub []"
  by simp

lemma transformation_types_empty:
  "transformation_types [''scale'', ''translate'', ''matrix''] [] s = Done () s"
  by simp

lemma matrix_segment:
  assumes "\<not> contains ''scale'' t" "\<not> contains ''translate'' t" "contains ''matrix'' t"
    and "transform_values
           (py_strip (normalize_py (py_replace ''('' [] (py_replace ''matrix'' [] t))) @ '' '')
         = Inr values"
  shows "transformation_types [''scale'', ''translate'', ''matrix''] t s
           = apply_transformation ''matrix'' values s"
  using assms by (cases "apply_transformation ''matrix'' values s") simp_all

lemma scale_segment:
  assumes "contains ''scale'' t"
    and "transform_values
           (py_strip (normalize_py (py_replace ''('' [] (py_replace ''scale'' [] t))) @ '' '')
         = Inr vals"
  shows "transformation_types [''scale'', ''translate'', ''matrix''] t s
           = apply_transformation ''scale'' vals s"
  using assms by (cases "apply_transformation ''scale'' vals s") simp_all

lemma transformations_last:
  "transformations [t, []] s = transformation_types [''scale'', ''translate'', ''matrix''] t s"
  by (cases "transformation_types [''scale'', ''translate'', ''matrix''] t s") simp_all

lemma py_split_first: "sep \<notin> set a \<Longrightarrow> py_split sep (a @ sep # b) = a # py_split sep b"
  by (induction a) (auto split: list.splits)

lemma transformations_Cons:
  "transformations (t # ts)
     = bindS (transformation_types [''scale'', ''translate'', ''matrix''] t) (\<lambda>u. transformations ts)"
  by (rule ext) (simp add: bindS.simps split: outcome.splits)

lemma transform_in_order:
  assumes "attrs node ''transform'' = Some (t1 @ '')'' @ t2)" and "CHR '')'' \<notin> set t1"
  shows "transform node s
           = bindS (transformation_types [''scale'', ''translate'', ''matrix''] t1)
               (\<lambda>u. transformations (py_split (CHR '')'') t2)) s"
  using assms py_split_first [OF assms(2), of t2]
  by (simp add: transform_def truthy_def transformations_Cons)

lemma transform_scale2:
  assumes "attrs node ''transform'' = Some ''scale(2)''"
  shows "transform node s = emit (Scale 2 2) s"
proof -
  have sp: "py_split (CHR '')'') ''scale(2)'' = [''scale(2'', []]" by code_simp
  have c: "contains ''scale'' ''scale(2''" by code_simp
  have v: "transform_values (py_strip (normalize_py (py_replace ''('' [] (py_replace ''scale'' [] ''scale(2''))) @ '' '')
             = Inr [Some 2]" by code_simp
  show ?thesis
    using assms
    by (simp add: transform_def truthy_def sp transformations_last scale_segment [OF c v]
          apply_scale_translate
          del: contains.simps transformation_types.simps transformations.simps)
qed

lemma transform_matrix:
  assumes "attrs node ''transform'' = Some ''matrix(1,0,0,1,5,5)''"
  shows "transform node s = emit (SetMatrix 1 0 0 1 5 5) s"
proof -
  have sp: "py_split (CHR '')'') ''matrix(1,0,0,1,5,5)'' = [''matrix(1,0,0,1,5,5'', []]" by code_simp
  have c: "\<not> contains ''scale'' ''matrix(1,0,0,1,5,5''" "\<not> contains ''translate'' ''matrix(1,0,0,1,5,5''"
    "contains ''matrix'' ''matrix(1,0,0,1,5,5''" by code_simp+
  have v: "transform_values (py_strip (normalize_py (py_replace ''('' [] (py_replace ''matrix'' [] ''matrix(1,0,0,1,5,5''))) @ '' '')
             = Inr [Some 1, Some 0, Some 0, Some 1, Some 5, Some 5]" by code_simp
  show ?thesis
    using assms
    by (simp add: transform_def truthy_def sp transformations_last matrix_segment [OF c v]
          apply_matrix
          del: contains.simps transformation_types.simps transformations.simps)
qed


text \<open>
  Claim C7. A \<open>matrix\<close> operation with six values makes the one call \<open>set_matrix\<close> with
  these values, whatever was applied before: the matrix is set, not composed. A \<open>scale\<close> or
  \<open>translate\<close> operation makes the backend call of its name, with a single value given
  for both axes, so \<open>"scale(2)"\<close> scales by \<open>(2, 2)\<close>. The operations are applied in the
  order of the attribute: the first one, up to its closing parenthesis, then the rest.
\<close>

theorem transform_composer:
  "apply_transformation ''matrix'' [Some a, Some b, Some c, Some d, Some e, Some f] s
     = emit (SetMatrix a b c d e f) s
   \<and> apply_transformation ''scale'' [Some v] s = emit (Scale v v) s
   \<and> apply_transformation ''translate'' [Some v] s = emit (Translate v v) s
   \<and> apply_transformation ''scale'' [Some v, Some w] s = emit (Scale v w) s
   \<and> apply_transformation ''translate'' [Some v, Some w] s = emit (Translate v w) s
   \<and> (\<not> contains ''scale'' t \<and> \<not> contains ''translate'' t \<and> contains ''matrix'' t
        \<and> transform_values
             (py_strip (normalize_py (py_replace ''('' [] (py_replace ''matrix'' [] t))) @ '' '')
           = Inr vals
      \<longrightarrow> transformation_types [''scale'', ''translate'', ''matrix''] t s
            = apply_transformation ''matrix'' vals s)
   \<and> (attrs node ''transform'' = Some ''scale(2)'' \<longrightarrow> transform node s = emit (Scale 2 2) s)
   \<and> (attrs node ''transform'' = Some ''matrix(1,0,0,1,5,5)''
      \<longrightarrow> transform node s = emit (SetMatrix 1 0 0 1 5 5) s)
   \<and> (attrs node ''transform'' = Some (t1 @ '')'' @ t2) \<and> CHR '')'' \<notin> set t1
      \<longrightarrow> transform node s
            = bindS (transformation_types [''scale'', ''translate'', ''matrix''] t1)
                (\<lambda>u. transformations (py_split (CHR '')'') t2)) s)"
proof -
  have "\<not> contains ''scale'' t \<and> \<not> contains ''translate'' t \<and> contains ''matrix'' t
        \<and> transform_values
             (py_strip (normalize_py (py_replace ''('' [] (py_replace ''matrix'' [] t))) @ '' '')
           = Inr vals
      \<longrightarrow> transformation_types [''scale'', ''translate'', ''matrix''] t s
            = apply_transformation ''matrix'' vals s"
    by (intro impI, elim conjE, rule matrix_segment)
  moreover have "attrs node ''transform'' = Some ''scale(2)'' \<longrightarrow> transform node s = emit (Scale 2 2) s"
    by (intro impI, rule transform_scale2)
  moreover have "attrs node ''transform'' = Some ''matrix(1,0,0,1,5,5)''
      \<longrightarrow> transform node s = emit (SetMatrix 1 0 0 1 5 5) s"
    by (intro impI, rule transform_matrix)
  moreover have "attrs node ''transform'' = Some (t1 @ '')'' @ t2) \<and> CHR '')'' \<notin> set t1
      \<longrightarrow> transform node s
            = bindS (transformation_types [''scale'', ''translate'', ''matrix''] t1)
                (\<lambda>u. transformations (py_split (CHR '')'') t2)) s"
    by (intro impI, elim conjE, rule transform_in_order)
  ultimately show ?thesis
    using apply_matrix [of a b c d e f s] apply_scale_translate(1,2) [of v s]
      apply_scale_translate(3,4) [of v w s]
    by (intro conjI) assumption+
qed

theorem transform_composer_witness:
  "transform (Node ''g'' [''transform'' \<mapsto> ''scale(2)''] [] None False) scaled_surface
     = Done () \<lparr>calls = [Save, Scale 3 3, Scale 2 2], cursor_position = None\<rparr>
   \<and> transform (Node ''g'' [''transform'' \<mapsto> ''matrix(1,0,0,1,5,5)''] [] None False) scaled_surface
     = Done () \<lparr>calls = [Save, Scale 3 3, SetMatrix 1 0 0 1 5 5], cursor_position = None\<rparr>
   \<and> transformation_types [''scale'', ''translate'', ''matrix''] ''matrix(1 2 3 4 5 6'' scaled_surface
     = Done () \<lparr>calls = [Save, Scale 3 3, SetMatrix 1 2 3 4 5 6], cursor_position = None\<rparr>
   \<and> transform (Node ''g'' [''transform'' \<mapsto> ''translate(10,-20) scale(2) matrix(1,0,0,1,5,5)'']
                  [] None False) scaled_surface
     = Done () \<lparr>calls = [Save, Scale 3 3, Translate 10 (- 20), Scale 2 2, SetMatrix 1 0 0 1 5 5],
                 cursor_position = None\<rparr>"
proof -
  let ?n1 = "Node ''g'' [''transform'' \<mapsto> ''scale(2)''] [] None False"
  let ?n2 = "Node ''g'' [''transform'' \<mapsto> ''matrix(1,0,0,1,5,5)''] [] None False"
  let ?n3 = "Node ''g'' [''transform'' \<mapsto> ''translate(10,-20) scale(2) matrix(1,0,0,1,5,5)''] [] None False"
  note T = transform_composer [where s = scaled_surface]
  have a: "attrs ?n1 ''transform'' = Some ''scale(2)''" by simp
  have b: "attrs ?n2 ''transform'' = Some ''matrix(1,0,0,1,5,5)''" by simp
  have c: "attrs ?n3 ''transform'' = Some (''translate(10,-20'' @ '')'' @ '' scale(2) matrix(1,0,0,1,5,5)'')"
    "CHR '')'' \<notin> set ''translate(10,-20''" by simp_all
  have m: "\<not> contains ''scale'' ''matrix(1 2 3 4 5 6''" "\<not> contains ''translate'' ''matrix(1 2 3 4 5 6''"
    "contains ''matrix'' ''matrix(1 2 3 4 5 6''"
    "transform_values (py_strip (normalize_py (py_replace ''('' [] (py_replace ''matrix'' [] ''matrix(1 2 3 4 5 6''))) @ '' '')
       = Inr [Some 1, Some 2, Some 3, Some 4, Some 5, Some 6]"
    by code_simp+
  have r: "bindS (transformation_types [''scale'', ''translate'', ''matrix''] ''translate(10,-20'')
                (\<lambda>u. transformations (py_split (CHR '')'') '' scale(2) matrix(1,0,0,1,5,5)'')) scaled_surface
           = Done () \<lparr>calls = [Save, Scale 3 3, Translate 10 (- 20), Scale 2 2, SetMatrix 1 0 0 1 5 5],
                 cursor_position = None\<rparr>"
    by code_simp
  from T [where node = ?n1] a have 1: "transform ?n1 scaled_surface = emit (Scale 2 2) scaled_surface"
    by blast
  from T [where node = ?n2] b have 2: "transform ?n2 scaled_surface = emit (SetMatrix 1 0 0 1 5 5) scaled_surface"
    by blast
  from T [where t = "''matrix(1 2 3 4 5 6''" and vals = "[Some 1, Some 2, Some 3, Some 4, Some 5, Some 6]"
            and a = 1 and b = 2 and c = 3 and d = 4 and e = 5 and f = 6] m
  have 3: "transformation_types [''scale'', ''translate'', ''matrix''] ''matrix(1 2 3 4 5 6'' scaled_surface
             = emit (SetMatrix 1 2 3 4 5 6) scaled_surface"
    by metis
  from T [where node = ?n3 and ?t1.0 = "''translate(10,-20''" and ?t2.0 = "'' scale(2) matrix(1,0,0,1,5,5)''"] c r
  have 4: "transform ?n3 scaled_surface = Done () \<lparr>calls = [Save, Scale 3 3, Translate 10 (- 20), Scale 2 2, SetMatrix 1 0 0 1 5 5],
                 cursor_position = None\<rparr>"
    by metis
  from 1 2 3 4 show ?thesis
    by (simp add: emit_def scaled_surface_def)
qed

section \<open>The path interpreter\<close>

lemma contains_single: "contains [c] s \<longleftrightarrow> c \<in> set s"
  by (induction s) auto

lemma unsupported_letter:
  assumes "c \<in> set ASCII_LETTERS" and "c \<notin> set ''mMlLhvVcCsSzZX''"
  shows "path_command E [c] v = Raised NotImplementedError"
proof -
  from assms have "c \<in> set ''abdefgijknopqrtuwxyABDEFGHIJKNOPQRTUWY''"
    by (auto simp: ASCII_LETTERS_def)
  then have l: "py_lower [c] \<noteq> ''z''"
    unfolding py_lower_def py_lower_char_def by auto
  from assms(2) have n: "[c] \<noteq> ''c''" "[c] \<noteq> ''C''" "[c] \<noteq> ''h''" "[c] \<noteq> ''V''" "[c] \<noteq> ''l''"
    "[c] \<noteq> ''L''" "[c] \<noteq> ''m''" "[c] \<noteq> ''M''" "[c] \<noteq> ''S''" "[c] \<noteq> ''s''" "[c] \<noteq> ''v''" "[c] \<noteq> ''X''"
    by auto
  show ?thesis
    unfolding path_command_def using l n by simp
qed

lemma letter_not_space: "c \<in> set ASCII_LETTERS \<Longrightarrow> c \<noteq> CHR '' ''"
  by (auto simp: ASCII_LETTERS_def)

lemma read_letter_first:
  assumes "c \<in> set ASCII_LETTERS" and "py_strip (string v) = c # CHR '' '' # rest"
  shows "read_letter v = Inr (v\<lparr>string := rest, letter := Some [c]\<rparr>)"
proof -
  have sp: "py_split_max (CHR '' '') (Suc 0) (c # CHR '' '' # rest) = [[c], rest]"
    using letter_not_space [OF assms(1)] by simp
  show ?thesis
    using assms(1)
    by (simp add: read_letter_def Let_def assms(2) sp split_first_def contains_single
          del: py_split_max.simps contains.simps)
qed

lemma path_step_unsupported:
  assumes "c \<in> set ASCII_LETTERS" and "c \<notin> set ''mMlLhvVcCsSzZX''"
    and "py_strip (string v) = c # CHR '' '' # rest"
  shows "path_step E v s = Raised NotImplementedError s"
  by (simp add: path_step_def read_letter_first [OF assms(1,3)] unsupported_letter [OF assms(1,2)]
        lift_def bindS.simps)

lemma path_loop_unsupported:
  assumes "c \<in> set ASCII_LETTERS" and "c \<notin> set ''mMlLhvVcCsSzZX''"
    and "py_strip (string v) = c # CHR '' '' # rest"
  shows "path_loop (Suc n) E v s = Raised NotImplementedError s"
proof -
  from assms(3) have "string v \<noteq> []" by (auto simp: py_strip_def)
  then show ?thesis
    by (subst path_loop.simps) (simp add: path_step_unsupported [OF assms])
qed

lemma path_A:
  assumes "attrs node ''d'' = Some ''A''"
  shows "path (Suc n) E node s = Raised NotImplementedError s"
proof -
  have str: "normalize_py (pad_letters (py_strip ''A'' @ ''XX'')) = '' A X X ''" by code_simp
  have st: "py_strip '' A X X '' = CHR ''A'' # CHR '' '' # ''X X''" by code_simp
  have a: "CHR ''A'' \<in> set ASCII_LETTERS" "CHR ''A'' \<notin> set ''mMlLhvVcCsSzZX''"
    by (simp_all add: ASCII_LETTERS_def)
  have "path_loop (Suc n) E \<lparr>string = '' A X X '', letter = None, last_letter = None,
          x2 = None, y2 = None, x3 = None, y3 = None\<rparr> s = Raised NotImplementedError s"
    by (rule path_loop_unsupported [OF a]) (simp add: st)
  then show ?thesis
    using assms by (simp add: path_def Let_def str bindS.simps)
qed

lemma draw_call_tag_raises:
  assumes "enter node s = Done () s1" and "call_tag n E node s1 = Raised e s2"
  shows "draw (Suc n) E node s = Raised e s2"
  using assms by simp

lemma call_tag_path: "tag node = ''path'' \<Longrightarrow> call_tag n E node = path n E node"
  by (rule ext) (simp add: call_tag.simps handler_def)

lemma draw_children_raises:
  assumes "draw_children n E pre s = Done () s1" and "draw n E child s1 = Raised e s2"
  shows "draw_children n E (pre @ child # post) s = Raised e s2"
  using assms
proof (induction pre arbitrary: s)
  case Nil
  then show ?case by simp
next
  case (Cons p pre)
  from Cons.prems(1) obtain s0 where "draw n E p s = Done () s0" "draw_children n E pre s0 = Done () s1"
    unfolding draw_children_Cons bindS_Done by auto
  with Cons.IH [OF _ Cons.prems(2)] show ?case by simp
qed

lemma draw_children_raise_propagates:
  assumes "enter node s = Done () s1" and "call_tag n E node s1 = Done node' s2"
    and "paint E node' s2 = Done () s3" and "draw_children n E (children node') s3 = Raised e s4"
  shows "draw (Suc n) E node s = Raised e s4"
  using assms by simp

lemma Surface_init_raises:
  assumes "size_py (attrs tree ''width'') = Inr w" and "size_py (attrs tree ''height'') = Inr h"
    and "draw n E tree new_surface = Raised e s'"
  shows "Surface_init n E tree = Raised e s'"
  using assms by (simp add: Surface_init_def size_attr_def lift_def bindS.simps)


text \<open>
  Claim C5, as amended. When the dispatch of the path interpreter reaches a command letter
  outside \<open>m M l L h v V c C s S z Z X\<close>, it raises \<open>NotImplementedError\<close>: so does the
  loop when such a letter is the next word of the string, and so does the handler on the
  path data \<open>"A"\<close>. Nothing catches the error: it leaves \<open>draw\<close> of the path node, \<open>draw\<close> of
  every node above it, whose remaining children are not drawn, and the construction of
  the surface.
\<close>

theorem path_unsupported_command:
  "(c \<in> set ASCII_LETTERS \<and> c \<notin> set ''mMlLhvVcCsSzZX''
      \<longrightarrow> path_command E [c] v s = Raised NotImplementedError s)
   \<and> (c \<in> set ASCII_LETTERS \<and> c \<notin> set ''mMlLhvVcCsSzZX''
        \<and> py_strip (string v) = c # CHR '' '' # rest
      \<longrightarrow> path_loop (Suc n) E v s = Raised NotImplementedError s)
   \<and> (attrs node ''d'' = Some ''A'' \<longrightarrow> path (Suc n) E node s = Raised NotImplementedError s)
   \<and> (tag node = ''path'' \<and> enter node s = Done () s1 \<and> path n E node s1 = Raised e s2
      \<longrightarrow> draw (Suc n) E node s = Raised e s2)
   \<and> (draw_children n E pre s = Done () s1 \<and> draw n E child s1 = Raised e s2
      \<longrightarrow> draw_children n E (pre @ child # post) s = Raised e s2)
   \<and> (enter node s = Done () s1 \<and> call_tag n E node s1 = Done node' s2
        \<and> paint E node' s2 = Done () s3
        \<and> draw_children n E (children node') s3 = Raised e s4
      \<longrightarrow> draw (Suc n) E node s = Raised e s4)
   \<and> (size_py (attrs tree ''width'') = Inr w \<and> size_py (attrs tree ''height'') = Inr h
        \<and> draw n E tree new_surface = Raised e s'
      \<longrightarrow> Surface_init n E tree = Raised e s')"
proof -
  have "c \<in> set ASCII_LETTERS \<and> c \<notin> set ''mMlLhvVcCsSzZX''
      \<longrightarrow> path_command E [c] v s = Raised NotImplementedError s"
    using unsupported_letter [of c E v] by simp
  moreover have "c \<in> set ASCII_LETTERS \<and> c \<notin> set ''mMlLhvVcCsSzZX''
        \<and> py_strip (string v) = c # CHR '' '' # rest
      \<longrightarrow> path_loop (Suc n) E v s = Raised NotImplementedError s"
    by (intro impI, elim conjE, rule path_loop_unsupported)
  moreover have "attrs node ''d'' = Some ''A'' \<longrightarrow> path (Suc n) E node s = Raised NotImplementedError s"
    by (intro impI, rule path_A)
  moreover have "tag node = ''path'' \<and> enter node s = Done () s1 \<and> path n E node s1 = Raised e s2
      \<longrightarrow> draw (Suc n) E node s = Raised e s2"
    using draw_call_tag_raises [of node s s1 n E e s2] call_tag_path [of node n E] by simp
  moreover have "draw_children n E pre s = Done () s1 \<and> draw n E child s1 = Raised e s2
      \<longrightarrow> draw_children n E (pre @ child # post) s = Raised e s2"
    by (intro impI, elim conjE, rule draw_children_raises)
  moreover have "enter node s = Done () s1 \<and> call_tag n E node s1 = Done node' s2
        \<and> paint E node' s2 = Done () s3
        \<and> draw_children n E (children node') s3 = Raised e s4
      \<longrightarrow> draw (Suc n) E node s = Raised e s4"
    by (intro impI, elim conjE, rule draw_children_raise_propagates)
  moreover have "size_py (attrs tree ''width'') = Inr w \<and> size_py (attrs tree ''height'') = Inr h
        \<and> draw n E tree new_surface = Raised e s'
      \<longrightarrow> Surface_init n E tree = Raised e s'"
    by (intro impI, elim conjE, rule Surface_init_raises)
  ultimately show ?thesis by (intro conjI) assumption+
qed

theorem path_unsupported_command_witness:
  "path_command example_env ''A''
     \<lparr>string = ''X X'', letter = Some ''A'', last_letter = None,
        x2 = None, y2 = None, x3 = None, y3 = None\<rparr> new_surface
     = Raised NotImplementedError new_surface
   \<and> path_loop 1 example_env
       \<lparr>string = '' A X X '', letter = None, last_letter = None,
          x2 = None, y2 = None, x3 = None, y3 = None\<rparr> new_surface
     = Raised NotImplementedError new_surface
   \<and> Surface_init 3 example_env failing_tree
     = Raised NotImplementedError
         \<lparr>calls = [Save, MoveTo 0 0, SetLineWidth 0, SetSourceRgba 0 0 0 0, StrokePreserve,
                   SetSourceRgba 0 0 0 0, Fill, Save, MoveTo 0 0],
            cursor_position = None\<rparr>"
proof -
  let ?p = "Node ''path'' [''d'' \<mapsto> ''A''] [] None False"
  let ?root = "Node ''svg'' Map.empty [?p] None True"
  let ?v1 = "\<lparr>string = ''X X'', letter = Some ''A'', last_letter = None,
               x2 = None, y2 = None, x3 = None, y3 = None\<rparr>"
  let ?v0 = "\<lparr>string = '' A X X '', letter = None, last_letter = None,
               x2 = None, y2 = None, x3 = None, y3 = None\<rparr>"
  let ?sA = "\<lparr>calls = [Save, MoveTo 0 0], cursor_position = None\<rparr>"
  let ?sB = "\<lparr>calls = [Save, MoveTo 0 0, SetLineWidth 0, SetSourceRgba 0 0 0 0, StrokePreserve,
                      SetSourceRgba 0 0 0 0, Fill], cursor_position = None\<rparr>"
  let ?sC = "\<lparr>calls = [Save, MoveTo 0 0, SetLineWidth 0, SetSourceRgba 0 0 0 0, StrokePreserve,
                      SetSourceRgba 0 0 0 0, Fill, Save, MoveTo 0 0], cursor_position = None\<rparr>"
  note T = path_unsupported_command [where E = example_env and c = "CHR ''A''" and e = NotImplementedError]
  have a: "CHR ''A'' \<in> set ASCII_LETTERS" "CHR ''A'' \<notin> set ''mMlLhvVcCsSzZX''"
    by (simp_all add: ASCII_LETTERS_def)
  from T [where v = ?v1 and s = new_surface] a
  have 1: "path_command example_env ''A'' ?v1 new_surface = Raised NotImplementedError new_surface"
    by blast
  have st: "py_strip (string ?v0) = CHR ''A'' # CHR '' '' # ''X X''"
    by code_simp
  from T [where v = ?v0 and s = new_surface and n = 0 and rest = "''X X''"] a st
  have 2: "path_loop 1 example_env ?v0 new_surface = Raised NotImplementedError new_surface"
    by simp
  have d: "attrs ?p ''d'' = Some ''A''" and tg: "tag ?p = ''path''"
    by simp_all
  from T [where node = ?p and s = ?sC and n = 0] d
  have 3: "path 1 example_env ?p ?sC = Raised NotImplementedError ?sC"
    by simp
  have e1: "enter ?p ?sB = Done () ?sC"
    by code_simp
  from T [where node = ?p and s = ?sB and ?s1.0 = ?sC and ?s2.0 = ?sC and n = 1] tg e1 3
  have 4: "draw 2 example_env ?p ?sB = Raised NotImplementedError ?sC"
    by (simp add: numeral_2_eq_2)
  have "draw_children 2 example_env [] ?sB = Done () ?sB"
    by simp
  with T [where pre = "[]" and child = ?p and post = "[]" and s = ?sB and ?s1.0 = ?sB and ?s2.0 = ?sC
            and n = 2] 4
  have 5: "draw_children 2 example_env (children ?root) ?sB = Raised NotImplementedError ?sC"
    by simp
  have e0: "enter ?root new_surface = Done () ?sA"
    by code_simp
  have c0: "call_tag 2 example_env ?root ?sA = Done ?root ?sA"
    by (simp add: call_tag.simps handler_def read_def not_a_handler_def)
  have p0: "paint example_env ?root ?sA = Done () ?sB"
    by code_simp
  from T [where node = ?root and node' = ?root and s = new_surface and ?s1.0 = ?sA and ?s2.0 = ?sA
            and ?s3.0 = ?sB and ?s4.0 = ?sC and n = 2] e0 c0 p0 5
  have 6: "draw 3 example_env ?root new_surface = Raised NotImplementedError ?sC"
    by (simp add: numeral_3_eq_3)
  have w: "size_py (attrs ?root ''width'') = Inr (Some 0)" "size_py (attrs ?root ''height'') = Inr (Some 0)"
    by (simp_all add: size_py_def)
  from T [where tree = ?root and n = 3 and s' = ?sC and w = "Some 0" and h = "Some 0"] w 6
  have 7: "Surface_init 3 example_env ?root = Raised NotImplementedError ?sC"
    by blast
  from 1 2 7 show ?thesis
    by (simp add: failing_tree_def)
qed

text \<open>
  The claim as stated, for every path data that holds such a letter, fails on \<open>"X A"\<close>:
  the letter \<open>X\<close> of the handled set ends the loop, the letter \<open>A\<close> is never read, and the
  whole document is rendered without error.
\<close>

theorem path_unsupported_command_counterexample:
  "CHR ''A'' \<notin> set ''mMlLhvVcCsSzZX''
   \<and> (case path 3 example_env (Node ''path'' [''d'' \<mapsto> ''X A''] [] None False) new_surface of
        Done node' s' \<Rightarrow> calls s' = []
      | _ \<Rightarrow> False)
   \<and> (case Surface_init 4 example_env
             (Node ''svg'' Map.empty [Node ''path'' [''d'' \<mapsto> ''X A''] [] None False] None True) of
        Done u s' \<Rightarrow> True
      | _ \<Rightarrow> False)"
  by code_simp

subsection \<open>The lowercase smooth curve\<close>

lemma smooth_after_curve:
  assumes "last_letter v = Some l" and "l = ''c'' \<or> l = ''s''"
    and "x2 v = Some p2" "y2 v = Some q2" "x3 v = Some p3" "y3 v = Some q3"
    and "curve_points (string v) = Inr ((Some a2, Some b2), (Some a3, Some b3), rest)"
  shows "path_command E ''s'' v s =
           Done (v\<lparr>string := rest, x2 := Some a2, y2 := Some b2, x3 := Some a3, y3 := Some b3\<rparr>)
             (s\<lparr>calls := calls s @ [RelCurveTo (p3 - p2) (q3 - q2) a2 b2 a3 b3]\<rparr>)"
  using assms
  by (auto simp: path_command_def smooth_command_def reflected_def emit6_def emit_def num_def
        lift_def bindS.simps)

lemma smooth_after_other:
  assumes "last_letter v = Some l" and "\<not> contains l ''cs''"
    and "curve_points (string v) = Inr ((Some a2, Some b2), (Some a3, Some b3), rest)"
  shows "path_command E ''s'' v s =
           Done (v\<lparr>string := rest, x2 := Some a2, y2 := Some b2, x3 := Some a3, y3 := Some b3\<rparr>)
             (s\<lparr>calls := calls s @ [RelCurveTo 0 0 a2 b2 a3 b3]\<rparr>)"
  using assms
  by (simp add: path_command_def smooth_command_def reflected_def emit6_def emit_def num_def
        lift_def bindS.simps del: contains.simps)

lemma smooth_first:
  assumes "last_letter v = None"
  shows "path_command E ''s'' v s = Raised TypeError s"
  using assms
  by (simp add: path_command_def smooth_command_def reflected_def lift_def bindS.simps)

lemma smooth_example:
  "(case path 5 example_env (Node ''path'' [''d'' \<mapsto> ''M0 0 c1 1 2 2 3 3 s 4 4 5 5''] [] None False)
           new_surface of
      Done node' s' \<Rightarrow> calls s' = [MoveTo 0 0, RelCurveTo 1 1 2 2 3 3, RelCurveTo 1 1 4 4 5 5]
    | _ \<Rightarrow> False)"
  by code_simp


text \<open>
  Claim C6, at the input where the code departs from it. The claim holds after every
  previous command letter (lemmas \<open>smooth_after_curve\<close>, \<open>smooth_after_other\<close> and
  \<open>smooth_example\<close>). When \<open>s\<close> is the first command of the path there is no previous letter:
  the test \<open>last_letter in "cs"\<close> is made on \<open>None\<close> and raises \<open>TypeError\<close>, where the claim
  has the control point \<open>(0, 0)\<close>.
\<close>

theorem smooth_first_command:
  "path (Suc n) E (Node ''path'' [''d'' \<mapsto> ''s 4 4 5 5''] cs t r) s = Raised TypeError s"
proof -
  let ?v0 = "\<lparr>string = '' s 4 4 5 5 X X '', letter = None, last_letter = None,
               x2 = None, y2 = None, x3 = None, y3 = None\<rparr>"
  have str: "normalize_py (pad_letters (py_strip ''s 4 4 5 5'' @ ''XX'')) = '' s 4 4 5 5 X X ''"
    by code_simp
  have rl: "read_letter ?v0 = Inr (?v0\<lparr>string := ''4 4 5 5 X X'', letter := Some ''s''\<rparr>)"
    by code_simp
  have "path_step E ?v0 s = Raised TypeError s"
    by (simp add: path_step_def rl lift_def bindS.simps smooth_first)
  then have "path_loop (Suc n) E ?v0 s = Raised TypeError s"
    by (subst path_loop.simps) simp
  then show ?thesis
    by (simp add: path_def Let_def str bindS.simps)
qed

end
